theory Spec2Isabelle
  imports Complex_Main "HOL-Library.Monad_Syntax"
begin

section \<open>Python strings\<close>

text \<open>
  A Python \<open>str\<close> is a sequence of Unicode code points; it is modelled as the list of
  its code points, so that \<open>len\<close>, slicing and the substring test count what Python
  counts. \<open>asc\<close> writes an ASCII literal.
\<close>

type_synonym pystr = "nat list"

definition asc :: "string \<Rightarrow> pystr" where
  "asc cs = map of_char cs"

text \<open>\<open>starts_with s p\<close> is \<open>s.startswith(p)\<close>; \<open>contains s k\<close> is \<open>k in s\<close>.\<close>

fun starts_with :: "pystr \<Rightarrow> pystr \<Rightarrow> bool" where
  "starts_with s [] = True"
| "starts_with [] (p # ps) = False"
| "starts_with (c # cs) (p # ps) = (c = p \<and> starts_with cs ps)"

fun contains :: "pystr \<Rightarrow> pystr \<Rightarrow> bool" where
  "contains [] k = (k = [])"
| "contains (c # cs) k = (starts_with (c # cs) k \<or> contains cs k)"

section \<open>Answer type classification\<close>

text \<open>
  The four keyword tables of \<open>determine_answer_type\<close>, as lists of code points. Both
  classes carry their own copy of the tables in the source; they are transcribed once per
  class below.
\<close>

definition number_keywords :: "pystr list" where
  "number_keywords =
    [[0x591A, 0x5C11], [0x91D1, 0x989D], [0x6570, 0x503C], [0x6570, 0x91CF],
     [0x6BD4, 0x4F8B], [0x767E, 0x5206, 0x6BD4], [0x7387], [0x6536, 0x5165],
     [0x5229, 0x6DA6], [0x8D44, 0x4EA7], [0x8D1F, 0x503A], [0x9500, 0x552E, 0x989D],
     [0x6210, 0x672C], [0x8D39, 0x7528], [0x6295, 0x8D44], [0x5E02, 0x503C],
     [0x80A1, 0x4EF7], [0x6536, 0x76CA], [0x4EA7, 0x503C], [0x4EA7, 0x91CF],
     [0x9500, 0x91CF]]"

definition name_keywords :: "pystr list" where
  "name_keywords =
    [[0x8C01], [0x54EA, 0x4E2A], [0x54EA, 0x4F4D], [0x4EC0, 0x4E48, 0x4EBA],
     [0x59D3, 0x540D], [0x540D, 0x5B57], [0x53EB, 0x4EC0, 0x4E48], [0x79F0, 0x8C13],
     [0x804C, 0x52A1], [0x804C, 0x4F4D], [0x89D2, 0x8272]]"

definition boolean_keywords :: "pystr list" where
  "boolean_keywords =
    [[0x662F, 0x5426], [0x6709, 0x6CA1, 0x6709], [0x662F, 0x5426, 0x5B58, 0x5728],
     [0x80FD, 0x5426], [0x53EF, 0x5426], [0x662F, 0x4E0D, 0x662F],
     [0x6709, 0x6CA1, 0x6709], [0x662F, 0x5426, 0x5177, 0x5907],
     [0x662F, 0x5426, 0x62E5, 0x6709]]"

definition names_keywords :: "pystr list" where
  "names_keywords =
    [[0x54EA, 0x4E9B], [0x54EA, 0x4E9B, 0x4EBA], [0x51E0, 0x4E2A, 0x4EBA],
     [0x90FD, 0x6709, 0x8C01], [0x90FD, 0x5305, 0x62EC], [0x5206, 0x522B],
     [0x5217, 0x8868], [0x6E05, 0x5355], [0x6240, 0x6709], [0x591A, 0x4E2A]]"

definition kb_number_keywords :: "pystr list" where
  "kb_number_keywords =
    [[0x591A, 0x5C11], [0x91D1, 0x989D], [0x6570, 0x503C], [0x6570, 0x91CF],
     [0x6BD4, 0x4F8B], [0x767E, 0x5206, 0x6BD4], [0x7387], [0x6536, 0x5165],
     [0x5229, 0x6DA6], [0x8D44, 0x4EA7], [0x8D1F, 0x503A], [0x9500, 0x552E, 0x989D],
     [0x6210, 0x672C], [0x8D39, 0x7528], [0x6295, 0x8D44], [0x5E02, 0x503C],
     [0x80A1, 0x4EF7], [0x6536, 0x76CA], [0x4EA7, 0x503C], [0x4EA7, 0x91CF],
     [0x9500, 0x91CF]]"

definition kb_name_keywords :: "pystr list" where
  "kb_name_keywords =
    [[0x8C01], [0x54EA, 0x4E2A], [0x54EA, 0x4F4D], [0x4EC0, 0x4E48, 0x4EBA],
     [0x59D3, 0x540D], [0x540D, 0x5B57], [0x53EB, 0x4EC0, 0x4E48], [0x79F0, 0x8C13],
     [0x804C, 0x52A1], [0x804C, 0x4F4D], [0x89D2, 0x8272]]"

definition kb_boolean_keywords :: "pystr list" where
  "kb_boolean_keywords =
    [[0x662F, 0x5426], [0x6709, 0x6CA1, 0x6709], [0x662F, 0x5426, 0x5B58, 0x5728],
     [0x80FD, 0x5426], [0x53EF, 0x5426], [0x662F, 0x4E0D, 0x662F],
     [0x6709, 0x6CA1, 0x6709], [0x662F, 0x5426, 0x5177, 0x5907],
     [0x662F, 0x5426, 0x62E5, 0x6709]]"

definition kb_names_keywords :: "pystr list" where
  "kb_names_keywords =
    [[0x54EA, 0x4E9B], [0x54EA, 0x4E9B, 0x4EBA], [0x51E0, 0x4E2A, 0x4EBA],
     [0x90FD, 0x6709, 0x8C01], [0x90FD, 0x5305, 0x62EC], [0x5206, 0x522B],
     [0x5217, 0x8868], [0x6E05, 0x5355], [0x6240, 0x6709], [0x591A, 0x4E2A]]"

text \<open>
  \<open>AnswerTypeClassifier.determine_answer_type\<close> (chains.py). \<open>str.lower\<close> belongs to
  the Python runtime and is taken as the parameter \<open>lower\<close>; \<open>any(keyword in q for
  keyword in kws)\<close> is \<open>list_ex\<close>. The four tests are made in the source's order.
\<close>

definition determine_answer_type :: "(pystr \<Rightarrow> pystr) \<Rightarrow> pystr \<Rightarrow> pystr" where
  "determine_answer_type lower question =
    (let question_lower = lower question in
     if list_ex (\<lambda>keyword. contains question_lower keyword) number_keywords
       then asc ''number''
     else if list_ex (\<lambda>keyword. contains question_lower keyword) name_keywords
       then asc ''name''
     else if list_ex (\<lambda>keyword. contains question_lower keyword) boolean_keywords
       then asc ''boolean''
     else if list_ex (\<lambda>keyword. contains question_lower keyword) names_keywords
       then asc ''names''
     else asc ''string'')"

text \<open>\<open>KnowledgeBase.determine_answer_type\<close> (knowledge_base.py), with its own tables.\<close>

definition kb_determine_answer_type :: "(pystr \<Rightarrow> pystr) \<Rightarrow> pystr \<Rightarrow> pystr" where
  "kb_determine_answer_type lower question =
    (let question_lower = lower question in
     if list_ex (\<lambda>keyword. contains question_lower keyword) kb_number_keywords
       then asc ''number''
     else if list_ex (\<lambda>keyword. contains question_lower keyword) kb_name_keywords
       then asc ''name''
     else if list_ex (\<lambda>keyword. contains question_lower keyword) kb_boolean_keywords
       then asc ''boolean''
     else if list_ex (\<lambda>keyword. contains question_lower keyword) kb_names_keywords
       then asc ''names''
     else asc ''string'')"

section \<open>Python dictionaries and slices\<close>

text \<open>
  A \<open>dict\<close> keeps its keys in insertion order, so it is an association list with
  distinct keys. \<open>dict_set d k v\<close> is \<open>d[k] = v\<close>: a key that is present
  keeps its place and gets the new value, a new key goes to the end.
\<close>

fun dict_set :: "('k \<times> 'v) list \<Rightarrow> 'k \<Rightarrow> 'v \<Rightarrow> ('k \<times> 'v) list" where
  "dict_set [] k v = [(k, v)]"
| "dict_set ((k', v') # d) k v =
     (if k' = k then (k, v) # d else (k', v') # dict_set d k v)"

text \<open>\<open>dict_upd d k f\<close> changes the value stored under a present key in place.\<close>

fun dict_upd :: "('k \<times> 'v) list \<Rightarrow> 'k \<Rightarrow> ('v \<Rightarrow> 'v) \<Rightarrow> ('k \<times> 'v) list" where
  "dict_upd [] k f = []"
| "dict_upd ((k', v') # d) k f =
     (if k' = k then (k', f v') # d else (k', v') # dict_upd d k f)"

definition dict_has :: "('k \<times> 'v) list \<Rightarrow> 'k \<Rightarrow> bool" where
  "dict_has d k = (map_of d k \<noteq> None)"

text \<open>
  \<open>slice_to xs k\<close> is \<open>xs[:k]\<close> for a Python int \<open>k\<close>: a negative \<open>k\<close> counts
  from the end.
\<close>

definition slice_to :: "'a list \<Rightarrow> int \<Rightarrow> 'a list" where
  "slice_to xs k =
     (if 0 \<le> k then take (nat k) xs else take (length xs - nat (- k)) xs)"

section \<open>Hybrid search: fusion of the two result lists\<close>

text \<open>
  A hit of \<open>search_by_vector\<close> or \<open>keyword_search\<close>: the dictionary with the keys
  \<open>id\<close>, \<open>score\<close>, \<open>content\<close> and \<open>metadata\<close>. Scores are Python floats; they are
  modelled as reals (no rounding, no NaN). The metadata is opaque.
\<close>

record 'm hit =
  hit_id :: pystr
  hit_score :: real
  hit_content :: pystr
  hit_metadata :: 'm

text \<open>A value of the dictionary \<open>all_results\<close>.\<close>

record 'm scores =
  s_id :: pystr
  s_content :: pystr
  s_metadata :: 'm
  s_vector_score :: real
  s_keyword_score :: real

text \<open>
  An element of the list \<open>hybrid_search\<close> returns. The last three keys are only set on
  the copies \<open>rerank_search_results\<close> makes; \<open>None\<close> is an absent key.
\<close>

record 'm candidate =
  c_id :: pystr
  c_content :: pystr
  c_metadata :: 'm
  hybrid_score :: real
  vector_score :: real
  keyword_score :: real
  rerank_score :: "real option"
  rerank_position :: "int option"
  original_position :: "int option"

text \<open>The first loop of \<open>hybrid_search\<close>: every vector hit is stored under its id.\<close>

definition add_vector_results :: "'m hit list \<Rightarrow> (pystr \<times> 'm scores) list" where
  "add_vector_results vector_results =
     foldl (\<lambda>all_results item.
        dict_set all_results (hit_id item)
          \<lparr>s_id = hit_id item, s_content = hit_content item,
           s_metadata = hit_metadata item,
           s_vector_score = hit_score item, s_keyword_score = 0\<rparr>)
       [] vector_results"

text \<open>
  The second loop: a keyword hit with a new id is stored with vector score 0; for an id
  that is present only the keyword score is assigned.
\<close>

definition add_keyword_results ::
  "(pystr \<times> 'm scores) list \<Rightarrow> 'm hit list \<Rightarrow> (pystr \<times> 'm scores) list" where
  "add_keyword_results all_results0 keyword_results =
     foldl (\<lambda>all_results item.
        if \<not> dict_has all_results (hit_id item)
        then dict_set all_results (hit_id item)
          \<lparr>s_id = hit_id item, s_content = hit_content item,
           s_metadata = hit_metadata item,
           s_vector_score = 0, s_keyword_score = hit_score item\<rparr>
        else dict_upd all_results (hit_id item)
          (\<lambda>sc. sc\<lparr>s_keyword_score := hit_score item\<rparr>))
       all_results0 keyword_results"

definition all_results :: "'m hit list \<Rightarrow> 'm hit list \<Rightarrow> (pystr \<times> 'm scores) list" where
  "all_results vector_results keyword_results =
     add_keyword_results (add_vector_results vector_results) keyword_results"

text \<open>The third loop: the weighted score of one entry of \<open>all_results\<close>.\<close>

definition scored :: "real \<Rightarrow> 'm scores \<Rightarrow> 'm candidate" where
  "scored vector_weight sc =
     \<lparr>c_id = s_id sc, c_content = s_content sc, c_metadata = s_metadata sc,
      hybrid_score =
        s_vector_score sc * vector_weight + s_keyword_score sc * (1 - vector_weight),
      vector_score = s_vector_score sc, keyword_score = s_keyword_score sc,
      rerank_score = None, rerank_position = None, original_position = None\<rparr>"

text \<open>
  \<open>xs.sort(key=f, reverse=True)\<close> is stable: elements with equal keys keep their
  order. That is \<open>sort_key\<close> on the negated key.
\<close>

definition sort_desc :: "('a \<Rightarrow> real) \<Rightarrow> 'a list \<Rightarrow> 'a list" where
  "sort_desc f xs = sort_key (\<lambda>x. - f x) xs"

text \<open>
  \<open>pre_rerank_results\<close> as it stands after the sort (lines 220 to 266 of
  es_vector_store.py): the fused list.
\<close>

definition pre_rerank_results ::
  "'m hit list \<Rightarrow> 'm hit list \<Rightarrow> real \<Rightarrow> 'm candidate list" where
  "pre_rerank_results vector_results keyword_results vector_weight =
     sort_desc hybrid_score
       (map (\<lambda>(doc_id, sc). scored vector_weight sc)
          (all_results vector_results keyword_results))"

text \<open>
  Notions the statements about the fused list use. \<open>first_seen xs\<close> keeps every
  element of \<open>xs\<close> at its first occurrence; \<open>insertion_order\<close> is the order in which
  the two loops meet the ids, the vector hits first; \<open>last_score hits i\<close> is the score
  of the last hit with id \<open>i\<close> (the one an assignment to the dictionary leaves), and 0
  when there is none.
\<close>

fun first_seen :: "'a list \<Rightarrow> 'a list" where
  "first_seen [] = []"
| "first_seen (x # xs) = x # filter (\<lambda>y. y \<noteq> x) (first_seen xs)"

definition insertion_order :: "'m hit list \<Rightarrow> 'm hit list \<Rightarrow> pystr list" where
  "insertion_order vector_results keyword_results =
     first_seen (map hit_id vector_results @ map hit_id keyword_results)"

definition last_score :: "'m hit list \<Rightarrow> pystr \<Rightarrow> real" where
  "last_score hits i =
     (case find (\<lambda>h. hit_id h = i) (rev hits) of None \<Rightarrow> 0 | Some h \<Rightarrow> hit_score h)"

definition by_score_desc :: "'m candidate list \<Rightarrow> bool" where
  "by_score_desc xs = sorted_wrt (\<lambda>a b. hybrid_score a \<ge> hybrid_score b) xs"

section \<open>Values decoded from JSON\<close>

text \<open>
  What \<open>json.loads\<close> and \<open>response.json()\<close> return: \<open>None\<close>, a bool, an int, a
  float (as a real), a str, a list or a dict with string keys.
\<close>

datatype json =
    JNull
  | JBool bool
  | JInt int
  | JFloat real
  | JStr pystr
  | JList "json list"
  | JDict "(pystr \<times> json) list"

text \<open>
  Python's operations on such values. The result \<open>None\<close> stands for a raised exception
  (TypeError, KeyError, IndexError or AttributeError).
\<close>

text \<open>\<open>xs[i]\<close> on a list: a negative index counts from the end.\<close>

definition list_get :: "'a list \<Rightarrow> int \<Rightarrow> 'a option" where
  "list_get xs i =
     (let n = int (length xs); j = (if i < 0 then n + i else i)
      in if 0 \<le> j \<and> j < n then Some (xs ! nat j) else None)"

text \<open>\<open>k in v\<close> for a str \<open>k\<close>.\<close>

fun py_in :: "pystr \<Rightarrow> json \<Rightarrow> bool option" where
  "py_in k (JDict d) = Some (dict_has d k)"
| "py_in k (JList l) = Some (List.member l (JStr k))"
| "py_in k (JStr s) = Some (contains s k)"
| "py_in k v = None"

text \<open>\<open>v[k]\<close> for a str \<open>k\<close>, and \<open>v[i]\<close> for an int \<open>i\<close>.\<close>

fun py_getitem_str :: "json \<Rightarrow> pystr \<Rightarrow> json option" where
  "py_getitem_str (JDict d) k = map_of d k"
| "py_getitem_str v k = None"

fun py_getitem_int :: "json \<Rightarrow> int \<Rightarrow> json option" where
  "py_getitem_int (JList l) i = list_get l i"
| "py_getitem_int (JStr s) i = map_option (\<lambda>c. JStr [c]) (list_get s i)"
| "py_getitem_int v i = None"

text \<open>\<open>for item in v\<close>: the items of a list, the keys of a dict, the characters of a str.\<close>

fun py_iter :: "json \<Rightarrow> json list option" where
  "py_iter (JList l) = Some l"
| "py_iter (JDict d) = Some (map (\<lambda>(k, v). JStr k) d)"
| "py_iter (JStr s) = Some (map (\<lambda>c. JStr [c]) s)"
| "py_iter v = None"

text \<open>\<open>item.get(k, default)\<close>: only a dict has the method.\<close>

fun py_get :: "json \<Rightarrow> pystr \<Rightarrow> json \<Rightarrow> json option" where
  "py_get (JDict d) k dflt = Some (case map_of d k of None \<Rightarrow> dflt | Some v \<Rightarrow> v)"
| "py_get v k dflt = None"

text \<open>
  \<open>float(v)\<close>. The conversion of a str is left to the parameter \<open>float_of_str\<close>
  (\<open>None\<close> when it raises ValueError).
\<close>

fun py_float :: "(pystr \<Rightarrow> real option) \<Rightarrow> json \<Rightarrow> real option" where
  "py_float float_of_str (JInt n) = Some (real_of_int n)"
| "py_float float_of_str (JFloat r) = Some r"
| "py_float float_of_str (JBool b) = Some (if b then 1 else 0)"
| "py_float float_of_str (JStr s) = float_of_str s"
| "py_float float_of_str v = None"

text \<open>\<open>v < n\<close> for an int \<open>n\<close>.\<close>

fun py_less_int :: "json \<Rightarrow> int \<Rightarrow> bool option" where
  "py_less_int (JInt i) n = Some (i < n)"
| "py_less_int (JFloat r) n = Some (r < real_of_int n)"
| "py_less_int (JBool b) n = Some ((if b then 1 else 0) < n)"
| "py_less_int v n = None"

text \<open>The value of \<open>v\<close> as a list index: an int, or a bool (which is an int in Python).\<close>

fun py_index :: "json \<Rightarrow> int option" where
  "py_index (JInt i) = Some i"
| "py_index (JBool b) = Some (if b then 1 else 0)"
| "py_index v = None"

text \<open>\<open>xs[v]\<close> on a list.\<close>

definition list_get_json :: "'a list \<Rightarrow> json \<Rightarrow> 'a option" where
  "list_get_json xs v = (case py_index v of None \<Rightarrow> None | Some i \<Rightarrow> list_get xs i)"

text \<open>The truth value of a dict or \<open>None\<close>, as in \<open>not self.jina_headers\<close>.\<close>

definition truthy :: "('k \<times> 'v) list option \<Rightarrow> bool" where
  "truthy h = (case h of None \<Rightarrow> False | Some d \<Rightarrow> d \<noteq> [])"

section \<open>The reranker\<close>

text \<open>
  The attributes of a \<open>UniversalBGEReranker\<close> the rerank methods read.
  \<open>llm_client\<close> is whether the attribute holds a client (and not \<open>None\<close>).
\<close>

record reranker =
  model_type :: pystr
  initialized :: bool
  url :: pystr
  jina_headers :: "(pystr \<times> pystr) list option"
  llm_client :: bool
  provider :: pystr

text \<open>One element of the list a rerank method returns.\<close>

record outcome =
  o_index :: json
  o_score :: real
  o_text :: pystr
  o_original_rank :: json
  o_rerank_score :: real

text \<open>The JSON body \<open>_jina_api_rerank\<close> posts.\<close>

record request =
  rq_url :: pystr
  rq_headers :: "(pystr \<times> pystr) list option"
  rq_model :: pystr
  rq_query :: pystr
  rq_top_n :: int
  rq_documents :: "pystr list"

text \<open>
  What \<open>requests.post\<close> does: it raises (a connection error, a timeout), or returns a
  response with a status code and a body; \<open>response.json()\<close> is \<open>None\<close> when decoding
  the body raises.
\<close>

datatype http_result = PostRaised | Response int "json option"

text \<open>
  What the services outside answer during one call of \<open>rerank\<close>:
  \<^item> \<open>predict\<close>: the scores \<open>self.model.predict\<close> returns, \<open>None\<close> when it raises;
  \<^item> \<open>post\<close>: the result of \<open>requests.post\<close>;
  \<^item> \<open>openai_rankings\<close>: for each entry of \<open>block_rankings\<close> of the parsed OpenAI
    completion its \<open>relevance_score\<close> (\<open>None\<close> for an entry without the key); \<open>None\<close>
    when the call or \<open>model_dump\<close> raises;
  \<^item> \<open>dashscope_rsp\<close>: what \<open>Generation.call\<close> returns, \<open>None\<close> when it raises;
  \<^item> \<open>float_of_str\<close>: Python's \<open>float\<close> on a str.
\<close>

record services =
  predict :: "real list option"
  post :: http_result
  openai_rankings :: "real option list option"
  dashscope_rsp :: "json option"
  float_of_str :: "pystr \<Rightarrow> real option"

text \<open>
  The list every fallback returns: the documents of \<open>documents[:top_k]\<close> in their order,
  the score of position \<open>i\<close> being \<open>1.0/(i+1)\<close>.
\<close>

definition passthrough :: "pystr list \<Rightarrow> int \<Rightarrow> outcome list" where
  "passthrough documents top_k =
     map (\<lambda>(i, doc).
        \<lparr>o_index = JInt (int i), o_score = 1 / (real i + 1), o_text = doc,
         o_original_rank = JInt (int i), o_rerank_score = 1 / (real i + 1)\<rparr>)
       (enumerate 0 (slice_to documents top_k))"

subsection \<open>\<open>_cross_encoder_rerank\<close>\<close>

text \<open>
  \<open>float(scores[i])\<close> for every \<open>i\<close> in \<open>range(len(documents))\<close> raises IndexError when
  fewer scores came back than documents were sent; \<open>range(min(top_k, len(score_list)))\<close>
  is empty for a negative bound.
\<close>

definition cross_encoder_rerank ::
  "reranker \<Rightarrow> services \<Rightarrow> pystr \<Rightarrow> pystr list \<Rightarrow> int \<Rightarrow> outcome list" where
  "cross_encoder_rerank self sv query documents top_k =
     (if \<not> initialized self then passthrough documents top_k
      else case predict sv of
        None \<Rightarrow> passthrough documents top_k
      | Some scores \<Rightarrow>
          if length scores < length documents then passthrough documents top_k
          else
            let score_list = sort_desc snd (enumerate 0 (take (length documents) scores))
            in map (\<lambda>(idx, score).
                 \<lparr>o_index = JInt (int idx), o_score = score, o_text = documents ! idx,
                  o_original_rank = JInt (int idx), o_rerank_score = score\<rparr>)
               (take (nat (min top_k (int (length score_list)))) score_list))"

subsection \<open>\<open>_jina_api_rerank\<close>\<close>

text \<open>The body of the loop over \<open>result['results']\<close>; \<open>None\<close> when it raises.\<close>

definition jina_item ::
  "(pystr \<Rightarrow> real option) \<Rightarrow> pystr list \<Rightarrow> nat \<times> json \<Rightarrow> outcome option" where
  "jina_item fos documents p =
     (case p of (i, item) \<Rightarrow>
      do {
        doc_idx \<leftarrow> py_get item (asc ''index'') (JInt (int i));
        score \<leftarrow> py_get item (asc ''relevance_score'') (JFloat 0);
        sc \<leftarrow> py_float fos score;
        in_range \<leftarrow> py_less_int doc_idx (int (length documents));
        txt \<leftarrow> (if in_range then list_get_json documents doc_idx else Some []);
        Some \<lparr>o_index = doc_idx, o_score = sc, o_text = txt,
              o_original_rank = doc_idx, o_rerank_score = sc\<rparr>
      })"

text \<open>
  The branch for status 200 once \<open>response.json()\<close> has returned \<open>result\<close>: the list
  stays empty when \<open>'results' in result\<close> is false.
\<close>

definition jina_results ::
  "(pystr \<Rightarrow> real option) \<Rightarrow> pystr list \<Rightarrow> json \<Rightarrow> outcome list option" where
  "jina_results fos documents result =
     do {
       has \<leftarrow> py_in (asc ''results'') result;
       if has then
         do {
           rs \<leftarrow> py_getitem_str result (asc ''results'');
           items \<leftarrow> py_iter rs;
           those (map (jina_item fos documents) (enumerate 0 items))
         }
       else Some []
     }"

definition jina_request :: "reranker \<Rightarrow> pystr \<Rightarrow> pystr list \<Rightarrow> int \<Rightarrow> request" where
  "jina_request self query documents top_k =
     \<lparr>rq_url = url self, rq_headers = jina_headers self,
      rq_model = asc ''jina-reranker-v2-base-multilingual'',
      rq_query = query, rq_top_n = top_k, rq_documents = documents\<rparr>"

text \<open>
  The method returns its list; the second component is the list of requests it has
  posted (none when the guard at its head returns). No attribute of \<open>self\<close> is
  assigned.
\<close>

definition jina_api_rerank ::
  "reranker \<Rightarrow> services \<Rightarrow> pystr \<Rightarrow> pystr list \<Rightarrow> int \<Rightarrow> outcome list \<times> request list" where
  "jina_api_rerank self sv query documents top_k =
     (if \<not> initialized self \<or> \<not> truthy (jina_headers self)
      then (passthrough documents top_k, [])
      else
        (case post sv of
           PostRaised \<Rightarrow> passthrough documents top_k
         | Response status_code body \<Rightarrow>
             if status_code = 200 then
               (case body of
                  None \<Rightarrow> passthrough documents top_k
                | Some result \<Rightarrow>
                    (case jina_results (float_of_str sv) documents result of
                       None \<Rightarrow> passthrough documents top_k
                     | Some results \<Rightarrow> results))
             else passthrough documents top_k,
         [jina_request self query documents top_k]))"

subsection \<open>\<open>_llm_rerank\<close>\<close>

text \<open>
  The DashScope branch: \<open>rsp\<close> must be a non-empty dict with \<open>'output'\<close> and
  \<open>'choices'\<close> in it, and \<open>rsp['output']['choices'][0]['message']['content']\<close> must
  exist; then every document gets a ranking with \<open>relevance_score\<close> 0.0. \<open>None\<close> is a
  raised exception.
\<close>

definition dashscope_rankings :: "json option \<Rightarrow> pystr list \<Rightarrow> real option list option" where
  "dashscope_rankings r documents =
     (case r of
        Some (JDict d) \<Rightarrow>
          if d = [] then None
          else if dict_has d (asc ''output'') then
            do {
              out \<leftarrow> map_of d (asc ''output'');
              has \<leftarrow> py_in (asc ''choices'') out;
              if has then
                do {
                  choices \<leftarrow> py_getitem_str out (asc ''choices'');
                  choice \<leftarrow> py_getitem_int choices 0;
                  message \<leftarrow> py_getitem_str choice (asc ''message'');
                  content \<leftarrow> py_getitem_str message (asc ''content'');
                  Some (map (\<lambda>doc. Some 0) documents)
                }
              else None
            }
          else None
      | _ \<Rightarrow> None)"

text \<open>
  The loop that builds \<open>results\<close>: it appends before it tests
  \<open>processed_docs >= top_k\<close>.
\<close>

fun llm_loop ::
  "real option list \<Rightarrow> (nat \<times> pystr) list \<Rightarrow> int \<Rightarrow> int \<Rightarrow> outcome list \<Rightarrow> outcome list" where
  "llm_loop rankings [] top_k processed_docs results = results"
| "llm_loop rankings ((i, doc) # rest) top_k processed_docs results =
     (let score = (if i < length rankings
                   then (case rankings ! i of None \<Rightarrow> 0 | Some r \<Rightarrow> r) else 0);
          results' = results @
            [\<lparr>o_index = JInt (int i), o_score = score, o_text = doc,
              o_original_rank = JInt (int i), o_rerank_score = score\<rparr>];
          processed_docs' = processed_docs + 1
      in if processed_docs' \<ge> top_k then results'
         else llm_loop rankings rest top_k processed_docs' results')"

definition llm_rerank ::
  "reranker \<Rightarrow> services \<Rightarrow> pystr \<Rightarrow> pystr list \<Rightarrow> int \<Rightarrow> outcome list" where
  "llm_rerank self sv query documents top_k =
     (if \<not> initialized self \<or> \<not> llm_client self then passthrough documents top_k
      else
        case (if provider self = asc ''openai'' then openai_rankings sv
              else if provider self = asc ''dashscope''
                then dashscope_rankings (dashscope_rsp sv) documents
              else None) of
          None \<Rightarrow> passthrough documents top_k
        | Some rankings \<Rightarrow>
            sort_desc o_rerank_score
              (llm_loop rankings (enumerate 0 documents) top_k 0 []))"

subsection \<open>\<open>rerank\<close> and \<open>rerank_search_results\<close>\<close>

definition rerank ::
  "reranker \<Rightarrow> services \<Rightarrow> pystr \<Rightarrow> pystr list \<Rightarrow> int \<Rightarrow> outcome list" where
  "rerank self sv query documents top_k =
     (if documents = [] then []
      else if model_type self = asc ''cross_encoder''
        then cross_encoder_rerank self sv query documents top_k
      else if model_type self = asc ''jina_api''
        then fst (jina_api_rerank self sv query documents top_k)
      else if model_type self = asc ''llm''
        then llm_rerank self sv query documents top_k
      else cross_encoder_rerank self sv query documents top_k)"

text \<open>
  The loop of \<open>rerank_search_results\<close> over the reranked list. \<open>search_results[idx]\<close>
  raises for an index that is out of range or not an int, which ends the method
  (\<open>None\<close>).
\<close>

fun assemble ::
  "'m candidate list \<Rightarrow> outcome list \<Rightarrow> 'm candidate list \<Rightarrow> 'm candidate list option" where
  "assemble search_results [] final_results = Some final_results"
| "assemble search_results (reranked_result # rest) final_results =
     (case list_get_json search_results (o_index reranked_result) of
        None \<Rightarrow> None
      | Some original_result \<Rightarrow>
          (case py_index (o_index reranked_result) of
             None \<Rightarrow> None
           | Some original_idx \<Rightarrow>
               assemble search_results rest
                 (final_results @
                   [original_result
                     \<lparr>rerank_score := Some (o_rerank_score reranked_result),
                      rerank_position := Some (int (length final_results) + 1),
                      original_position := Some (original_idx + 1)\<rparr>])))"

definition rerank_search_results ::
  "reranker \<Rightarrow> services \<Rightarrow> pystr \<Rightarrow> 'm candidate list \<Rightarrow> int \<Rightarrow> 'm candidate list option" where
  "rerank_search_results self sv query search_results top_k =
     (if search_results = [] then Some []
      else
        let documents = map c_content search_results;
            reranked_results = rerank self sv query documents top_k
        in assemble search_results reranked_results [])"

section \<open>\<open>hybrid_search\<close>\<close>

text \<open>
  What \<open>hybrid_search\<close> gets from outside: the two hit lists (or the exception the
  search raised), and the reranker \<open>get_high_comp_reranker()\<close> returns; that is \<open>None\<close>
  when the import at the head of the module failed or the constructor raises, which both
  lead to the statement after the rerank block.
\<close>

record ('e, 'm) retrieval =
  vector_hits :: "'e + 'm hit list"
  keyword_hits :: "'e + 'm hit list"
  high_comp_reranker :: "reranker option"

text \<open>
  The second sort, on \<open>x['rerank_score']\<close>; a missing key would raise KeyError
  (\<open>None\<close>).
\<close>

definition sort_by_rerank_score :: "'m candidate list \<Rightarrow> 'm candidate list option" where
  "sort_by_rerank_score xs =
     (if list_all (\<lambda>x. rerank_score x \<noteq> None) xs
      then Some (sort_desc (\<lambda>x. the (rerank_score x)) xs) else None)"

text \<open>
  The rerank block of \<open>hybrid_search\<close>: \<open>Some\<close> is the list its \<open>return\<close> gives,
  \<open>None\<close> means that control reaches the statements after the block (reranking not
  requested, no initialised reranker, or an exception, which the block only logs).
\<close>

definition rerank_block ::
  "reranker option \<Rightarrow> services \<Rightarrow> pystr \<Rightarrow> 'm candidate list \<Rightarrow> int \<Rightarrow> bool
     \<Rightarrow> 'm candidate list option" where
  "rerank_block rr sv query_text pre top_k use_reranker =
     (if use_reranker then
        (case rr of
           None \<Rightarrow> None
         | Some reranker \<Rightarrow>
             if initialized reranker then
               do {
                 reranked_results \<leftarrow>
                   rerank_search_results reranker sv query_text pre
                     (min (top_k * 2) (int (length pre)));
                 sorted_results \<leftarrow> sort_by_rerank_score reranked_results;
                 Some (slice_to sorted_results top_k)
               }
             else None)
      else None)"

text \<open>
  \<open>hybrid_search\<close>: an exception of either search is raised again (\<open>Inl\<close>); otherwise
  the reranked list, or \<open>pre_rerank_results[:top_k]\<close>.
\<close>

definition hybrid_search ::
  "('e, 'm) retrieval \<Rightarrow> services \<Rightarrow> pystr \<Rightarrow> int \<Rightarrow> real \<Rightarrow> bool
     \<Rightarrow> 'e + 'm candidate list" where
  "hybrid_search env sv query_text top_k vector_weight use_reranker =
     (case vector_hits env of
        Inl e \<Rightarrow> Inl e
      | Inr vector_results \<Rightarrow>
          (case keyword_hits env of
             Inl e \<Rightarrow> Inl e
           | Inr keyword_results \<Rightarrow>
               let pre = pre_rerank_results vector_results keyword_results vector_weight
               in (case rerank_block (high_comp_reranker env) sv query_text pre top_k
                         use_reranker of
                     Some final \<Rightarrow> Inr final
                   | None \<Rightarrow> Inr (slice_to pre top_k))))"

text \<open>
  \<open>seen_acc\<close> is the order of the keys as the loops build it, with the keys seen so
  far as an accumulator; it only serves the proofs.
\<close>

fun seen_acc :: "'a list \<Rightarrow> 'a list \<Rightarrow> 'a list" where
  "seen_acc seen [] = seen"
| "seen_acc seen (x # xs) = seen_acc (if x \<in> set seen then seen else seen @ [x]) xs"

section \<open>The structured output parser\<close>

subsection \<open>String operations\<close>

text \<open>
  \<open>is_space\<close> is \<open>str.isspace\<close> on one character, which is also what \<open>\s\<close> matches
  in a pattern on \<open>str\<close>: the ASCII whitespace and separators 9 to 13 and 28 to 32, and
  the Unicode spaces.
\<close>

definition is_space :: "nat \<Rightarrow> bool" where
  "is_space c =
     ((9 \<le> c \<and> c \<le> 13) \<or> (28 \<le> c \<and> c \<le> 32) \<or> c = 0x85 \<or> c = 0xA0 \<or> c = 0x1680
      \<or> (0x2000 \<le> c \<and> c \<le> 0x200A) \<or> c = 0x2028 \<or> c = 0x2029 \<or> c = 0x202F
      \<or> c = 0x205F \<or> c = 0x3000)"

definition strip :: "pystr \<Rightarrow> pystr" where
  "strip s = rev (dropWhile is_space (rev (dropWhile is_space s)))"

text \<open>\<open>split_on c s\<close> is \<open>s.split(c)\<close> for a one-character separator.\<close>

fun split_on :: "nat \<Rightarrow> pystr \<Rightarrow> pystr list" where
  "split_on c [] = [[]]"
| "split_on c (x # xs) =
     (if x = c then [] # split_on c xs
      else (case split_on c xs of
              [] \<Rightarrow> [[x]]
            | l # ls \<Rightarrow> (x # l) # ls))"

fun join :: "pystr \<Rightarrow> pystr list \<Rightarrow> pystr" where
  "join sep [] = []"
| "join sep [x] = x"
| "join sep (x # y # ys) = x @ sep @ join sep (y # ys)"

text \<open>\<open>s.find(c)\<close> and \<open>s.rfind(c)\<close> for one character: the index, or -1.\<close>

fun index_from :: "nat \<Rightarrow> pystr \<Rightarrow> nat \<Rightarrow> int" where
  "index_from c [] i = - 1"
| "index_from c (x # xs) i = (if x = c then int i else index_from c xs (Suc i))"

fun rindex_from :: "nat \<Rightarrow> pystr \<Rightarrow> nat \<Rightarrow> int \<Rightarrow> int" where
  "rindex_from c [] i found = found"
| "rindex_from c (x # xs) i found =
     rindex_from c xs (Suc i) (if x = c then int i else found)"

definition py_find :: "pystr \<Rightarrow> nat \<Rightarrow> int" where
  "py_find s c = index_from c s 0"

definition py_rfind :: "pystr \<Rightarrow> nat \<Rightarrow> int" where
  "py_rfind s c = rindex_from c s 0 (- 1)"

text \<open>\<open>s[i:j]\<close> for \<open>i\<close> and \<open>j\<close> that are not negative.\<close>

definition slice :: "pystr \<Rightarrow> int \<Rightarrow> int \<Rightarrow> pystr" where
  "slice s i j = drop (nat i) (take (nat j) s)"

text \<open>\<open>s.replace(old, new)\<close> for a non-empty \<open>old\<close> (the parser has no other use).\<close>

function replace :: "pystr \<Rightarrow> pystr \<Rightarrow> pystr \<Rightarrow> pystr" where
  "replace [] old new = []"
| "replace (c # cs) old new =
     (if old \<noteq> [] \<and> starts_with (c # cs) old
      then new @ replace (drop (length old) (c # cs)) old new
      else c # replace cs old new)"
  by pat_completeness auto
termination
  by (relation "measure (\<lambda>(s, old, new). length s)") auto

subsection \<open>The regular expressions\<close>

text \<open>
  \<open>search m s\<close> is \<open>re.search\<close>: the match at the leftmost position of \<open>s\<close> where
  the pattern, given as the function \<open>m\<close> that matches at the head of a text and returns
  group 1, matches.
\<close>

fun search :: "(pystr \<Rightarrow> 'a option) \<Rightarrow> pystr \<Rightarrow> 'a option" where
  "search m [] = m []"
| "search m (c # cs) = (case m (c # cs) of Some g \<Rightarrow> Some g | None \<Rightarrow> search m cs)"

definition after_prefix :: "pystr \<Rightarrow> pystr \<Rightarrow> pystr option" where
  "after_prefix s p = (if starts_with s p then Some (drop (length p) s) else None)"

text \<open>
  The pattern \<^verbatim>\<open>"KEY"\s*:\s*"([^"]*)"\<close>. Each greedy repetition is followed by
  a character outside its class, so the only match takes the whole run.
\<close>

definition match_quoted_value :: "pystr \<Rightarrow> pystr \<Rightarrow> pystr option" where
  "match_quoted_value key s =
     (case after_prefix s (34 # key @ [34]) of
        None \<Rightarrow> None
      | Some r \<Rightarrow>
          (case dropWhile is_space r of
             [] \<Rightarrow> None
           | c # r2 \<Rightarrow>
               if c \<noteq> 58 then None
               else
                 (case dropWhile is_space r2 of
                    [] \<Rightarrow> None
                  | d # r4 \<Rightarrow>
                      if d \<noteq> 34 then None
                      else if dropWhile (\<lambda>x. x \<noteq> 34) r4 = [] then None
                      else Some (takeWhile (\<lambda>x. x \<noteq> 34) r4))))"

text \<open>
  The pattern \<^verbatim>\<open>"KEY"[^}]*?"([^"]*)"\<close>: the lazy part stops at the first
  double quote that comes before any closing brace, and the group runs to the next double
  quote; when there is none, no later stop has one either.
\<close>

definition match_loose_value :: "pystr \<Rightarrow> pystr \<Rightarrow> pystr option" where
  "match_loose_value key s =
     (case after_prefix s (34 # key @ [34]) of
        None \<Rightarrow> None
      | Some r \<Rightarrow>
          (case dropWhile (\<lambda>x. x \<noteq> 125 \<and> x \<noteq> 34) r of
             [] \<Rightarrow> None
           | c # r2 \<Rightarrow>
               if c \<noteq> 34 then None
               else if dropWhile (\<lambda>x. x \<noteq> 34) r2 = [] then None
               else Some (takeWhile (\<lambda>x. x \<noteq> 34) r2)))"

text \<open>The pattern \<^verbatim>\<open>"relevant_pages"\s*:\s*\[([^\]]*)\]\<close>.\<close>

definition match_pages :: "pystr \<Rightarrow> pystr option" where
  "match_pages s =
     (case after_prefix s (34 # asc ''relevant_pages'' @ [34]) of
        None \<Rightarrow> None
      | Some r \<Rightarrow>
          (case dropWhile is_space r of
             [] \<Rightarrow> None
           | c # r2 \<Rightarrow>
               if c \<noteq> 58 then None
               else
                 (case dropWhile is_space r2 of
                    [] \<Rightarrow> None
                  | d # r4 \<Rightarrow>
                      if d \<noteq> 91 then None
                      else if dropWhile (\<lambda>x. x \<noteq> 93) r4 = [] then None
                      else Some (takeWhile (\<lambda>x. x \<noteq> 93) r4))))"

text \<open>The pattern \<^verbatim>\<open>\[([0-9,\s]+)\]\<close>.\<close>

definition in_number_list :: "nat \<Rightarrow> bool" where
  "in_number_list x = ((48 \<le> x \<and> x \<le> 57) \<or> x = 44 \<or> is_space x)"

definition match_number_list :: "pystr \<Rightarrow> pystr option" where
  "match_number_list s =
     (case s of
        [] \<Rightarrow> None
      | c # r \<Rightarrow>
          if c \<noteq> 91 then None
          else
            (case dropWhile in_number_list r of
               [] \<Rightarrow> None
             | d # r2 \<Rightarrow>
                 if d = 93 \<and> takeWhile in_number_list r \<noteq> []
                 then Some (takeWhile in_number_list r) else None))"

text \<open>
  \<^verbatim>\<open>re.findall(r'\d+', s)\<close>: the maximal runs of digits, \<open>isd\<close> being what
  \<^verbatim>\<open>\d\<close> matches.
\<close>

function digit_runs :: "(nat \<Rightarrow> bool) \<Rightarrow> pystr \<Rightarrow> pystr list" where
  "digit_runs isd [] = []"
| "digit_runs isd (c # cs) =
     (if isd c then (c # takeWhile isd cs) # digit_runs isd (dropWhile isd cs)
      else digit_runs isd cs)"
  by pat_completeness auto
termination
  by (relation "measure (\<lambda>(isd, s). length s)")
     (auto simp: less_Suc_eq_le length_dropWhile_le)

text \<open>
  \<^verbatim>\<open>re.sub(r',(\s*[}\]])', r'\1', s)\<close>: a comma that is followed by optional
  whitespace and a closing brace or bracket is dropped; the scan goes on behind the
  bracket.
\<close>

function sub_trailing_commas :: "pystr \<Rightarrow> pystr" where
  "sub_trailing_commas [] = []"
| "sub_trailing_commas (c # cs) =
     (if c = 44 then
        (case dropWhile is_space cs of
           [] \<Rightarrow> c # sub_trailing_commas cs
         | d # r \<Rightarrow>
             if d = 125 \<or> d = 93
             then takeWhile is_space cs @ d # sub_trailing_commas r
             else c # sub_trailing_commas cs)
      else c # sub_trailing_commas cs)"
  by pat_completeness auto
termination
proof (relation "measure length", goal_cases)
  case 1
  then show ?case by simp
next
  case (2 c cs)
  then show ?case by simp
next
  case (3 c cs d r)
  then show ?case using length_dropWhile_le[of is_space cs] by simp
next
  case (4 c cs d r)
  then show ?case by simp
next
  case (5 c cs)
  then show ?case by simp
qed

subsection \<open>The Python runtime\<close>

text \<open>
  What a call of \<open>json.loads\<close> does: it returns the decoded value, raises
  \<open>JSONDecodeError\<close>, or raises another exception \<open>e\<close> (a RecursionError, the
  ValueError for an integer literal beyond the digit limit); \<open>Raised\<close> carries
  \<open>str(e)\<close>.
\<close>

datatype loads_result = Decoded json | JSONDecodeError | Raised pystr

text \<open>
  The library functions the parser calls:
  \<^item> \<open>rt_loads\<close>: \<open>json.loads\<close>;
  \<^item> \<open>rt_is_decimal\<close>: the characters \<^verbatim>\<open>\d\<close> matches;
  \<^item> \<open>rt_int\<close>: \<open>int(p)\<close> on a run of such characters, \<open>Inl (str(e))\<close> when it
    raises \<open>e\<close>.
\<close>

record runtime =
  rt_loads :: "pystr \<Rightarrow> loads_result"
  rt_is_decimal :: "nat \<Rightarrow> bool"
  rt_int :: "pystr \<Rightarrow> pystr + int"

subsection \<open>\<open>StructuredOutputParser.parse\<close>\<close>

definition fence :: pystr where
  \<open>fence = asc ''```''\<close>

definition fence_json :: pystr where
  \<open>fence_json = asc ''```json''\<close>

definition key_step :: pystr where
  "key_step = asc ''step_by_step_analysis''"

definition key_summary :: pystr where
  "key_summary = asc ''reasoning_summary''"

definition key_pages :: pystr where
  "key_pages = asc ''relevant_pages''"

definition key_final :: pystr where
  "key_final = asc ''final_answer''"

text \<open>The loop over the lines of a text that contains a code fence.\<close>

fun fence_loop :: "pystr list \<Rightarrow> bool \<Rightarrow> pystr list \<Rightarrow> pystr list" where
  "fence_loop [] inside_json json_lines = json_lines"
| "fence_loop (line # lines) inside_json json_lines =
     (let marker = (starts_with (strip line) fence_json \<or> strip line = fence) in
      if marker \<and> \<not> inside_json \<and> contains line fence_json
        then fence_loop lines True json_lines
      else if marker \<and> inside_json \<and> strip line = fence
        then fence_loop lines False json_lines
      else if inside_json
        then fence_loop lines inside_json (json_lines @ [line])
      else fence_loop lines inside_json json_lines)"

text \<open>\<open>processed_text\<close> as it stands before the first \<open>json.loads\<close>.\<close>

definition processed :: "pystr \<Rightarrow> pystr" where
  "processed txt =
     (let processed_text = strip txt in
      if contains processed_text fence then
        (let json_lines = fence_loop (split_on 10 processed_text) False [] in
         if json_lines \<noteq> [] then strip (join [10] json_lines) else processed_text)
      else processed_text)"

text \<open>
  The second step, on the text between the first opening and the last closing brace. The
  result \<open>Some (Inr v)\<close> is \<open>return v\<close>, \<open>Some (Inl e)\<close> an exception other than
  \<open>JSONDecodeError\<close>, \<open>None\<close> means that control goes on to the third step.
\<close>

definition cleaned :: "pystr \<Rightarrow> pystr" where
  "cleaned json_candidate =
     replace (replace (replace (sub_trailing_commas json_candidate)
       [10] [92, 110]) [9] [92, 116]) [13] [92, 114]"

definition brace_step :: "runtime \<Rightarrow> pystr \<Rightarrow> (pystr + json) option" where
  "brace_step rt processed_text =
     (let start_idx = py_find processed_text 123;
          end_idx = py_rfind processed_text 125
      in if start_idx \<noteq> - 1 \<and> end_idx \<noteq> - 1 \<and> start_idx < end_idx then
           (let json_candidate = slice processed_text start_idx (end_idx + 1)
            in case rt_loads rt json_candidate of
                 Decoded v \<Rightarrow> Some (Inr v)
               | Raised e \<Rightarrow> Some (Inl e)
               | JSONDecodeError \<Rightarrow>
                   (case rt_loads rt (cleaned json_candidate) of
                      Decoded v \<Rightarrow> Some (Inr v)
                    | Raised e \<Rightarrow> Some (Inl e)
                    | JSONDecodeError \<Rightarrow> None))
         else None)"

text \<open>
  The third step. A string field is looked for with the strict pattern, then with the
  loose one.
\<close>

definition find_string_field :: "pystr \<Rightarrow> pystr \<Rightarrow> pystr option" where
  "find_string_field key s =
     (case search (match_quoted_value key) s of
        Some g \<Rightarrow> Some g
      | None \<Rightarrow> search (match_loose_value key) s)"

text \<open>\<open>[int(p) for p in page_numbers]\<close>: the first \<open>int\<close> that raises ends it.\<close>

fun ints_of :: "(pystr \<Rightarrow> pystr + int) \<Rightarrow> pystr list \<Rightarrow> pystr + json list" where
  "ints_of f [] = Inr []"
| "ints_of f (p # ps) =
     (case f p of
        Inl e \<Rightarrow> Inl e
      | Inr n \<Rightarrow> (case ints_of f ps of Inl e \<Rightarrow> Inl e | Inr ns \<Rightarrow> Inr (JInt n # ns)))"

definition page_numbers :: "runtime \<Rightarrow> pystr \<Rightarrow> pystr + json option" where
  "page_numbers rt g =
     (case ints_of (rt_int rt) (digit_runs (rt_is_decimal rt) g) of
        Inl e \<Rightarrow> Inl e
      | Inr ns \<Rightarrow> Inr (Some (JList ns)))"

text \<open>
  The value for \<open>relevant_pages\<close>: \<open>Inr None\<close> when neither pattern matches, \<open>Inl\<close>
  when \<open>int\<close> raises. The bare \<open>except\<close> takes every exception of \<open>json.loads\<close>.
\<close>

definition find_pages :: "runtime \<Rightarrow> pystr \<Rightarrow> pystr + json option" where
  "find_pages rt processed_text =
     (case search match_pages processed_text of
        Some g \<Rightarrow>
          (case rt_loads rt (91 # g @ [93]) of
             Decoded v \<Rightarrow> Inr (Some v)
           | JSONDecodeError \<Rightarrow> page_numbers rt g
           | Raised e \<Rightarrow> page_numbers rt g)
      | None \<Rightarrow>
          (case search match_number_list processed_text of
             Some g \<Rightarrow> page_numbers rt g
           | None \<Rightarrow> Inr None))"

text \<open>The dictionary \<open>result\<close> after the four extractions.\<close>

definition extract_fields :: "runtime \<Rightarrow> pystr \<Rightarrow> pystr + (pystr \<times> json) list" where
  "extract_fields rt processed_text =
     (let r1 = (case find_string_field key_step processed_text of
                  Some g \<Rightarrow> dict_set [] key_step (JStr (replace g [92, 110] [10]))
                | None \<Rightarrow> []);
          r2 = (case find_string_field key_summary processed_text of
                  Some g \<Rightarrow> dict_set r1 key_summary (JStr g)
                | None \<Rightarrow> r1)
      in case find_pages rt processed_text of
           Inl e \<Rightarrow> Inl e
         | Inr pages \<Rightarrow>
             (let r3 = (case pages of Some v \<Rightarrow> dict_set r2 key_pages v | None \<Rightarrow> r2);
                  r4 = (case find_string_field key_final processed_text of
                          Some g \<Rightarrow> dict_set r3 key_final (JStr g)
                        | None \<Rightarrow> r3)
              in Inr r4))"

text \<open>The fixed texts of the parser, as code points.\<close>

definition step_not_found :: pystr where
  "step_not_found = [0x672A, 0x627E, 0x5230, 0x5206, 0x6B65, 0x5206, 0x6790]"

definition summary_not_found :: pystr where
  "summary_not_found = [0x672A, 0x627E, 0x5230, 0x63A8, 0x7406, 0x6458, 0x8981]"

definition cannot_parse_prefix :: pystr where
  "cannot_parse_prefix =
     [0x65E0, 0x6CD5, 0x89E3, 0x6790, 0x54CD, 0x5E94, 0x683C, 0x5F0F, 0xFF0C,
      0x539F, 0x59CB, 0x5185, 0x5BB9, 0x3A, 0x20]"

definition format_anomaly :: pystr where
  "format_anomaly = [0x54CD, 0x5E94, 0x683C, 0x5F0F, 0x5F02, 0x5E38]"

definition parse_error_prefix :: pystr where
  "parse_error_prefix = [0x89E3, 0x6790, 0x51FA, 0x9519, 0x3A, 0x20]"

definition parse_error_summary :: pystr where
  "parse_error_summary =
     [0x89E3, 0x6790, 0x8FC7, 0x7A0B, 0x4E2D, 0x9047, 0x5230, 0x9519, 0x8BEF]"

text \<open>The completion of a non-empty \<open>result\<close> with the fields it lacks.\<close>

definition fill_missing :: "(pystr \<times> json) list \<Rightarrow> pystr \<Rightarrow> (pystr \<times> json) list" where
  "fill_missing result processed_text =
     (let r1 = (if \<not> dict_has result key_step
                then dict_set result key_step (JStr step_not_found) else result);
          r2 = (if \<not> dict_has r1 key_summary
                then dict_set r1 key_summary (JStr summary_not_found) else r1);
          r3 = (if \<not> dict_has r2 key_pages
                then dict_set r2 key_pages (JList []) else r2);
          r4 = (if \<not> dict_has r3 key_final
                then dict_set r3 key_final (JStr processed_text) else r3)
      in r4)"

definition regex_step :: "runtime \<Rightarrow> pystr \<Rightarrow> pystr + json" where
  "regex_step rt processed_text =
     (case extract_fields rt processed_text of
        Inl e \<Rightarrow> Inl e
      | Inr result \<Rightarrow>
          if result \<noteq> [] then Inr (JDict (fill_missing result processed_text))
          else Inr (JDict
            [(key_step, JStr (cannot_parse_prefix @ take 200 processed_text @ asc ''...'')),
             (key_summary, JStr format_anomaly),
             (key_pages, JList []),
             (key_final, JStr processed_text)]))"

text \<open>
  The body of the outer \<open>try\<close>: \<open>Inr\<close> is the value a \<open>return\<close> gives, \<open>Inl\<close> an
  exception that reaches the outer \<open>except\<close>.
\<close>

definition parse_body :: "runtime \<Rightarrow> pystr \<Rightarrow> pystr + json" where
  "parse_body rt txt =
     (let processed_text = processed txt
      in case rt_loads rt processed_text of
           Decoded v \<Rightarrow> Inr v
         | Raised e \<Rightarrow> Inl e
         | JSONDecodeError \<Rightarrow>
             (case brace_step rt processed_text of
                Some r \<Rightarrow> r
              | None \<Rightarrow> regex_step rt processed_text))"

definition parse :: "runtime \<Rightarrow> pystr \<Rightarrow> json" where
  "parse rt txt =
     (case parse_body rt txt of
        Inr v \<Rightarrow> v
      | Inl e \<Rightarrow>
          JDict [(key_step, JStr (parse_error_prefix @ e)),
                 (key_summary, JStr parse_error_summary),
                 (key_pages, JList []),
                 (key_final, JStr txt)])"

text \<open>\<open>has_four_fields v\<close>: \<open>v\<close> is a dict and the four keys are in it.\<close>

definition has_four_fields :: "json \<Rightarrow> bool" where
  "has_four_fields v =
     (case v of
        JDict d \<Rightarrow> dict_has d key_step \<and> dict_has d key_summary
                    \<and> dict_has d key_pages \<and> dict_has d key_final
      | _ \<Rightarrow> False)"

text \<open>
  \<open>decoded rt txt\<close>: the value one of the three calls of \<open>json.loads\<close> in the first two
  steps decodes, which \<open>parse\<close> returns as it is; \<open>None\<close> when none of them decodes.
\<close>

definition decoded :: "runtime \<Rightarrow> pystr \<Rightarrow> json option" where
  "decoded rt txt =
     (case rt_loads rt (processed txt) of
        Decoded v \<Rightarrow> Some v
      | Raised e \<Rightarrow> None
      | JSONDecodeError \<Rightarrow>
          (case brace_step rt (processed txt) of
             Some (Inr v) \<Rightarrow> Some v
           | _ \<Rightarrow> None))"

section \<open>A model of \<open>json.loads\<close>\<close>

text \<open>
  \<open>json_loads\<close> follows the decoder of the standard library (\<open>strict\<close> mode, no
  hooks): whitespace is space, tab, line feed and carriage return; a string ends at the
  first unescaped double quote, must not contain a control character, and knows the
  escapes \<^verbatim>\<open>\" \\ \/ \b \f \n \r \t \uXXXX\<close> (two escapes that form a surrogate
  pair give one character); a number is an optional minus, \<open>0\<close> or a digit run without a
  leading zero, an optional fraction and an optional exponent; a later duplicate of a key
  replaces the value. It is idealised in three respects: a float is the real number its
  literal denotes; the constants \<open>NaN\<close>, \<open>Infinity\<close> and \<open>-Infinity\<close>, which have no
  real value, are rejected; and the interpreter's limits (recursion depth, digits of an
  integer literal) do not exist, so it never raises anything but \<open>JSONDecodeError\<close>.
  The tests \<open>length rest < length s\<close> in the equations hold always; they are there for
  the termination proof.
\<close>

definition is_ws :: "nat \<Rightarrow> bool" where
  "is_ws c = (c = 32 \<or> c = 9 \<or> c = 10 \<or> c = 13)"

definition skip_ws :: "pystr \<Rightarrow> pystr" where
  "skip_ws s = dropWhile is_ws s"

definition is_digit :: "nat \<Rightarrow> bool" where
  "is_digit c = (48 \<le> c \<and> c \<le> 57)"

definition hex_val :: "nat \<Rightarrow> nat option" where
  "hex_val c =
     (if 48 \<le> c \<and> c \<le> 57 then Some (c - 48)
      else if 97 \<le> c \<and> c \<le> 102 then Some (c - 87)
      else if 65 \<le> c \<and> c \<le> 70 then Some (c - 55)
      else None)"

fun hex4 :: "pystr \<Rightarrow> (nat \<times> pystr) option" where
  "hex4 (a # b # c # d # rest) =
     (case (hex_val a, hex_val b, hex_val c, hex_val d) of
        (Some x, Some y, Some z, Some w) \<Rightarrow> Some (((x * 16 + y) * 16 + z) * 16 + w, rest)
      | _ \<Rightarrow> None)"
| "hex4 s = None"

definition unescape :: "nat \<Rightarrow> nat option" where
  "unescape e =
     (if e = 34 then Some 34 else if e = 92 then Some 92 else if e = 47 then Some 47
      else if e = 98 then Some 8 else if e = 102 then Some 12 else if e = 110 then Some 10
      else if e = 114 then Some 13 else if e = 116 then Some 9 else None)"

definition low_surrogate_escape :: "pystr \<Rightarrow> (nat \<times> pystr) option" where
  "low_surrogate_escape s =
     (case s of
        b # u # r \<Rightarrow>
          if b = 92 \<and> u = 117 then
            (case hex4 r of
               Some (v, rest) \<Rightarrow> if 0xDC00 \<le> v \<and> v \<le> 0xDFFF then Some (v, rest) else None
             | None \<Rightarrow> None)
          else None
      | _ \<Rightarrow> None)"

lemma hex4_length: "hex4 s = Some (u, r) \<Longrightarrow> length r < length s"
  by (induction s rule: hex4.induct) (auto split: option.splits)

lemma low_surrogate_escape_length: "low_surrogate_escape s = Some (u, r) \<Longrightarrow> length r < length s"
  by (auto simp: low_surrogate_escape_def split: list.splits if_splits option.splits dest: hex4_length)

function scan_string :: "pystr \<Rightarrow> (pystr \<times> pystr) option" where
  "scan_string [] = None"
| "scan_string (c # s) =
     (if c = 34 then Some ([], s)
      else if c = 92 then
        (case s of
           [] \<Rightarrow> None
         | e # s' \<Rightarrow>
             if e = 117 then
               (case hex4 s' of
                  None \<Rightarrow> None
                | Some (u, s'') \<Rightarrow>
                    if 0xD800 \<le> u \<and> u \<le> 0xDBFF then
                      (case low_surrogate_escape s'' of
                         Some (u2, s3) \<Rightarrow>
                           map_option (\<lambda>(r, rest).
                              ((0x10000 + ((u - 0xD800) * 1024 + (u2 - 0xDC00))) # r, rest))
                             (scan_string s3)
                       | None \<Rightarrow> map_option (\<lambda>(r, rest). (u # r, rest)) (scan_string s''))
                    else map_option (\<lambda>(r, rest). (u # r, rest)) (scan_string s''))
             else
               (case unescape e of
                  None \<Rightarrow> None
                | Some ch \<Rightarrow> map_option (\<lambda>(r, rest). (ch # r, rest)) (scan_string s')))
      else if c < 32 then None
      else map_option (\<lambda>(r, rest). (c # r, rest)) (scan_string s))"
  by pat_completeness auto
termination
  by (relation "measure length")
     (auto dest!: hex4_length low_surrogate_escape_length)

lemma scan_string_step:
  "scan_string (c # t) = Some (r, rest) \<Longrightarrow>
     rest = t \<or> (\<exists>t' r'. length t' \<le> length t \<and> scan_string t' = Some (r', rest))"
  by (auto split: if_splits list.splits option.splits
      dest!: hex4_length low_surrogate_escape_length)

lemma scan_string_length: "scan_string s = Some (r, rest) \<Longrightarrow> length rest < length s"
proof (induction "length s" arbitrary: s r rule: less_induct)
  case less
  show ?case
  proof (cases s)
    case Nil
    with less.prems show ?thesis by simp
  next
    case (Cons c t)
    from scan_string_step[OF less.prems[unfolded Cons]]
    show ?thesis
    proof
      assume "rest = t"
      with Cons show ?thesis by simp
    next
      assume "\<exists>t' r'. length t' \<le> length t \<and> scan_string t' = Some (r', rest)"
      then obtain t' r' where a: "length t' \<le> length t" and b: "scan_string t' = Some (r', rest)"
        by blast
      from a Cons have l: "length t' < length s" by simp
      from less.hyps[OF l b] l show ?thesis by simp
    qed
  qed
qed

definition dec :: "pystr \<Rightarrow> nat" where
  "dec ds = foldl (\<lambda>a d. 10 * a + (d - 48)) 0 ds"

text \<open>
  The integer part of a number is \<open>0\<close> or a run of digits that does not start with
  \<open>0\<close>; the fraction is a point with at least one digit behind it; the exponent is
  \<open>e\<close> or \<open>E\<close>, an optional sign and at least one digit. A fraction or exponent
  that is not complete does not belong to the number.
\<close>

definition int_part :: "pystr \<Rightarrow> (pystr \<times> pystr) option" where
  "int_part s =
     (case s of
        [] \<Rightarrow> None
      | d # r \<Rightarrow>
          if \<not> is_digit d then None
          else if d = 48 then Some ([d], r)
          else Some (takeWhile is_digit s, dropWhile is_digit s))"

definition frac_part :: "pystr \<Rightarrow> pystr option \<times> pystr" where
  "frac_part s =
     (case s of
        [] \<Rightarrow> (None, s)
      | p # r \<Rightarrow>
          if p = 46 \<and> r \<noteq> [] \<and> is_digit (hd r)
          then (Some (takeWhile is_digit r), dropWhile is_digit r)
          else (None, s))"

definition exp_sign :: "pystr \<Rightarrow> int \<times> pystr" where
  "exp_sign s =
     (case s of
        [] \<Rightarrow> (1, s)
      | g # t \<Rightarrow> if g = 43 then (1, t) else if g = 45 then (- 1, t) else (1, s))"

definition exp_part :: "pystr \<Rightarrow> int option \<times> pystr" where
  "exp_part s =
     (case s of
        [] \<Rightarrow> (None, s)
      | e # r \<Rightarrow>
          if e = 101 \<or> e = 69 then
            (case exp_sign r of
               (sg, r') \<Rightarrow>
                 if r' \<noteq> [] \<and> is_digit (hd r')
                 then (Some (sg * int (dec (takeWhile is_digit r'))), dropWhile is_digit r')
                 else (None, s))
          else (None, s))"

text \<open>The real number a float literal denotes.\<close>

definition float_value :: "pystr \<Rightarrow> pystr option \<Rightarrow> int option \<Rightarrow> real" where
  "float_value ip fp ep =
     (let m = real (dec ip)
              + (case fp of None \<Rightarrow> 0 | Some ds \<Rightarrow> real (dec ds) / 10 ^ length ds)
      in case ep of
           None \<Rightarrow> m
         | Some e \<Rightarrow> if 0 \<le> e then m * 10 ^ nat e else m / 10 ^ nat (- e))"

definition scan_number :: "pystr \<Rightarrow> (json \<times> pystr) option" where
  "scan_number s =
     (case (case s of [] \<Rightarrow> (False, s)
                    | c # r \<Rightarrow> if c = 45 then (True, r) else (False, s)) of
        (neg, s1) \<Rightarrow>
          (case int_part s1 of
             None \<Rightarrow> None
           | Some (ip, s2) \<Rightarrow>
               (case frac_part s2 of
                  (fp, s3) \<Rightarrow>
                    (case exp_part s3 of
                       (ep, s4) \<Rightarrow>
                         if fp = None \<and> ep = None
                         then Some (JInt ((if neg then - 1 else 1) * int (dec ip)), s4)
                         else Some (JFloat ((if neg then - 1 else 1)
                                             * float_value ip fp ep), s4)))))"

lemma length_skip_ws: "length (skip_ws s) \<le> length s"
  by (simp add: skip_ws_def length_dropWhile_le)

lemma skip_ws_Cons_length: "skip_ws s = d # t \<Longrightarrow> length t < length s"
  using length_skip_ws[of s] by simp

function parse_value :: "pystr \<Rightarrow> (json \<times> pystr) option"
  and parse_elements :: "pystr \<Rightarrow> (json list \<times> pystr) option"
  and parse_members :: "pystr \<Rightarrow> ((pystr \<times> json) list \<times> pystr) option" where
  "parse_value [] = None"
| "parse_value (c # s) =
     (if c = 34 then map_option (\<lambda>(r, rest). (JStr r, rest)) (scan_string s)
      else if c = 123 then
        (case skip_ws s of
           [] \<Rightarrow> None
         | d # t \<Rightarrow>
             if d = 125 then Some (JDict [], t)
             else if d = 34 then
               map_option
                 (\<lambda>(ms, rest). (JDict (foldl (\<lambda>dict (k, v). dict_set dict k v) [] ms), rest))
                 (parse_members (d # t))
             else None)
      else if c = 91 then
        (case skip_ws s of
           [] \<Rightarrow> None
         | d # t \<Rightarrow>
             if d = 93 then Some (JList [], t)
             else map_option (\<lambda>(vs, rest). (JList vs, rest)) (parse_elements (d # t)))
      else if starts_with (c # s) (asc ''null'') then Some (JNull, drop 4 (c # s))
      else if starts_with (c # s) (asc ''true'') then Some (JBool True, drop 4 (c # s))
      else if starts_with (c # s) (asc ''false'') then Some (JBool False, drop 5 (c # s))
      else scan_number (c # s))"
| "parse_elements s =
     (case parse_value s of
        None \<Rightarrow> None
      | Some (v, rest) \<Rightarrow>
          if length rest < length s then
            (case skip_ws rest of
               [] \<Rightarrow> None
             | d # t \<Rightarrow>
                 if d = 93 then Some ([v], t)
                 else if d = 44 then
                   map_option (\<lambda>(vs, r). (v # vs, r)) (parse_elements (skip_ws t))
                 else None)
          else None)"
| "parse_members s =
     (case s of
        [] \<Rightarrow> None
      | c # s1 \<Rightarrow>
          if c \<noteq> 34 then None
          else
            (case scan_string s1 of
               None \<Rightarrow> None
             | Some (key, r1) \<Rightarrow>
                 (case skip_ws r1 of
                    [] \<Rightarrow> None
                  | d # r2 \<Rightarrow>
                      if d \<noteq> 58 then None
                      else
                        (case parse_value (skip_ws r2) of
                           None \<Rightarrow> None
                         | Some (v, r4) \<Rightarrow>
                             if length r4 < length (skip_ws r2) then
                               (case skip_ws r4 of
                                  [] \<Rightarrow> None
                                | e # r5 \<Rightarrow>
                                    if e = 125 then Some ([(key, v)], r5)
                                    else if e = 44 then
                                      (case skip_ws r5 of
                                         [] \<Rightarrow> None
                                       | q # r6 \<Rightarrow>
                                           if q = 34 then
                                             map_option (\<lambda>(ms, r). ((key, v) # ms, r))
                                               (parse_members (q # r6))
                                           else None)
                                    else None)
                             else None))))"
  by pat_completeness auto
termination
proof (relation "measure (\<lambda>x. case x of Inl s \<Rightarrow> 2 * length s
                                   | Inr (Inl s) \<Rightarrow> 2 * length s + 1
                                   | Inr (Inr s) \<Rightarrow> 2 * length s + 1)", goal_cases)
  case 1
  then show ?case by simp
next
  case (2 c s d t)
  then show ?case using skip_ws_Cons_length[of s d t] by simp
next
  case (3 c s d t)
  then show ?case using skip_ws_Cons_length[of s d t] by simp
next
  case (4 s)
  then show ?case by simp
next
  case (5 s x v rest d t)
  then show ?case using skip_ws_Cons_length[of rest d t] length_skip_ws[of t] by simp
next
  case (6 s c s1 x key r1 d r2)
  then show ?case
    using scan_string_length[of s1 key r1] skip_ws_Cons_length[of r1 d r2]
      length_skip_ws[of r2] by simp
next
  case (7 s c s1 x key r1 d r2 y v r4 e r5 q r6)
  then show ?case
    using scan_string_length[of s1 key r1] skip_ws_Cons_length[of r1 d r2]
      length_skip_ws[of r2] skip_ws_Cons_length[of r4 e r5] skip_ws_Cons_length[of r5 q r6]
    by simp
qed

definition json_loads :: "pystr \<Rightarrow> loads_result" where
  "json_loads s =
     (case parse_value (skip_ws s) of
        None \<Rightarrow> JSONDecodeError
      | Some (v, rest) \<Rightarrow> if skip_ws rest = [] then Decoded v else JSONDecodeError)"


text \<open>
  The runtime of the examples: \<open>json_loads\<close>, the ASCII digits for
  \<^verbatim>\<open>\d\<close>, and an \<open>int\<close> without a digit limit.
\<close>

definition reference_runtime :: runtime where
  "reference_runtime =
     \<lparr>rt_loads = json_loads, rt_is_decimal = is_digit, rt_int = (\<lambda>p. Inr (int (dec p)))\<rparr>"

section \<open>Structured answers and their serialized form\<close>

text \<open>
  A valid structured answer: two strings, the page numbers, and a final answer that is a
  string (the sentinel \<open>N/A\<close> is one), a number, a boolean or a sequence of strings.
  A number is an integer here; a float has no exact counterpart in this model.
\<close>

datatype final = FStr pystr | FInt int | FBool bool | FNames "pystr list"

record structured_answer =
  sa_step :: pystr
  sa_summary :: pystr
  sa_pages :: "int list"
  sa_final :: final

text \<open>The answer as the dict it is in Python.\<close>

fun final_json :: "final \<Rightarrow> json" where
  "final_json (FStr s) = JStr s"
| "final_json (FInt i) = JInt i"
| "final_json (FBool b) = JBool b"
| "final_json (FNames ns) = JList (map JStr ns)"

definition answer_dict :: "structured_answer \<Rightarrow> json" where
  "answer_dict x =
     JDict [(key_step, JStr (sa_step x)), (key_summary, JStr (sa_summary x)),
            (key_pages, JList (map JInt (sa_pages x))), (key_final, final_json (sa_final x))]"

definition ascii :: "pystr \<Rightarrow> bool" where
  "ascii s = list_all (\<lambda>c. c < 128) s"

definition ascii_answer :: "structured_answer \<Rightarrow> bool" where
  "ascii_answer x =
     (ascii (sa_step x) \<and> ascii (sa_summary x)
      \<and> (case sa_final x of FStr s \<Rightarrow> ascii s | FNames ns \<Rightarrow> list_all ascii ns | _ \<Rightarrow> True))"

text \<open>
  Modelled from the spec: \<open>serialize\<close>, which the repository does not contain. The
  spec defines it as the canonical structured-text form the direct parse accepts; it is
  taken to be what \<open>json.dumps\<close> writes for the dict: the four keys in their order,
  the separators \<^verbatim>\<open>, \<close> and \<^verbatim>\<open>: \<close>, strings in double quotes with
  \<^verbatim>\<open>\" \\ \n \r \t \b \f\<close> and \<^verbatim>\<open>\u00XX\<close> for the other control
  characters, integers in decimal, \<open>true\<close> and \<open>false\<close>.
\<close>

definition hexdigit :: "nat \<Rightarrow> nat" where
  "hexdigit d = (if d < 10 then 48 + d else 87 + d)"

definition esc_char :: "nat \<Rightarrow> pystr" where
  "esc_char c =
     (if c = 34 then [92, 34] else if c = 92 then [92, 92]
      else if c = 10 then [92, 110] else if c = 13 then [92, 114]
      else if c = 9 then [92, 116] else if c = 8 then [92, 98]
      else if c = 12 then [92, 102]
      else if c < 32 then [92, 117, 48, 48, hexdigit (c div 16), hexdigit (c mod 16)]
      else [c])"

definition dumps_str :: "pystr \<Rightarrow> pystr" where
  "dumps_str s = 34 # concat (map esc_char s) @ [34]"

function digits :: "nat \<Rightarrow> pystr" where
  "digits n = (if n < 10 then [48 + n] else digits (n div 10) @ [48 + n mod 10])"
  by pat_completeness auto
termination
  by (relation "measure id") auto

definition dumps_int :: "int \<Rightarrow> pystr" where
  "dumps_int i = (if i < 0 then 45 # digits (nat (- i)) else digits (nat i))"

definition dumps_list :: "pystr list \<Rightarrow> pystr" where
  "dumps_list items = 91 # join (asc '', '') items @ [93]"

fun dumps_final :: "final \<Rightarrow> pystr" where
  "dumps_final (FStr s) = dumps_str s"
| "dumps_final (FInt i) = dumps_int i"
| "dumps_final (FBool b) = (if b then asc ''true'' else asc ''false'')"
| "dumps_final (FNames ns) = dumps_list (map dumps_str ns)"

definition serialize :: "structured_answer \<Rightarrow> pystr" where
  "serialize x =
     123 # dumps_str key_step @ asc '': '' @ dumps_str (sa_step x) @ asc '', ''
       @ dumps_str key_summary @ asc '': '' @ dumps_str (sa_summary x) @ asc '', ''
       @ dumps_str key_pages @ asc '': '' @ dumps_list (map dumps_int (sa_pages x)) @ asc '', ''
       @ dumps_str key_final @ asc '': '' @ dumps_final (sa_final x) @ [125]"

text \<open>An answer for the examples.\<close>

definition example_answer :: structured_answer where
  "example_answer =
     \<lparr>sa_step = asc ''Page 3 says: '' @ [34] @ asc ''42'' @ [34, 10],
      sa_summary = asc ''stated on page 3'', sa_pages = [3, 12],
      sa_final = FInt (- 42)\<rparr>"

text \<open>
  The text of a value: \<open>value_text vt v\<close> says that the decoder reads \<open>v\<close> from \<open>vt\<close> and
  stops there, whatever follows, when what follows is the end of the text, a comma or a
  closing bracket. \<open>sep_follows\<close> is that condition.
\<close>

definition sep_follows :: "pystr \<Rightarrow> bool" where
  "sep_follows rest = (rest = [] \<or> hd rest = 44 \<or> hd rest = 93 \<or> hd rest = 125)"

definition value_text :: "pystr \<Rightarrow> json \<Rightarrow> bool" where
  "value_text vt v =
     (vt \<noteq> [] \<and> \<not> is_ws (hd vt)
      \<and> (\<forall>rest. sep_follows rest \<longrightarrow> parse_value (vt @ rest) = Some (v, rest)))"

section \<open>Example inputs\<close>

text \<open>The hit lists of the example: dense A 0.9, B 0.4; sparse B 0.8, C 0.5.\<close>

definition example_dense :: "unit hit list" where
  "example_dense =
     [\<lparr>hit_id = asc ''A'', hit_score = 9 / 10, hit_content = asc ''a'', hit_metadata = ()\<rparr>,
      \<lparr>hit_id = asc ''B'', hit_score = 4 / 10, hit_content = asc ''b'', hit_metadata = ()\<rparr>]"

definition example_sparse :: "unit hit list" where
  "example_sparse =
     [\<lparr>hit_id = asc ''B'', hit_score = 8 / 10, hit_content = asc ''b'', hit_metadata = ()\<rparr>,
      \<lparr>hit_id = asc ''C'', hit_score = 5 / 10, hit_content = asc ''c'', hit_metadata = ()\<rparr>]"

definition example_retrieval :: "(unit, unit) retrieval" where
  "example_retrieval =
     \<lparr>vector_hits = Inr example_dense, keyword_hits = Inr example_sparse,
      high_comp_reranker = None\<rparr>"

text \<open>Three hits that all get the fused score 1/4 at weight 1/2.\<close>

definition tie_retrieval :: "(unit, unit) retrieval" where
  "tie_retrieval =
     \<lparr>vector_hits = Inr
        [\<lparr>hit_id = asc ''B'', hit_score = 1 / 2, hit_content = asc ''b'', hit_metadata = ()\<rparr>,
         \<lparr>hit_id = asc ''A'', hit_score = 1 / 2, hit_content = asc ''a'', hit_metadata = ()\<rparr>],
      keyword_hits = Inr
        [\<lparr>hit_id = asc ''C'', hit_score = 1 / 2, hit_content = asc ''c'', hit_metadata = ()\<rparr>],
      high_comp_reranker = None\<rparr>"

text \<open>Services that all fail: no call of the examples below reaches them.\<close>

definition no_services :: services where
  "no_services =
     \<lparr>predict = None, post = PostRaised, openai_rankings = None, dashscope_rsp = None,
      float_of_str = (\<lambda>s. None)\<rparr>"

text \<open>\<open>same_scores c c0\<close>: \<open>c\<close> is a copy of \<open>c0\<close> as far as id and scores go.\<close>

definition same_scores :: "'m candidate \<Rightarrow> 'm candidate \<Rightarrow> bool" where
  "same_scores c c0 \<longleftrightarrow> c_id c = c_id c0 \<and> hybrid_score c = hybrid_score c0
     \<and> vector_score c = vector_score c0 \<and> keyword_score c = keyword_score c0"

text \<open>
  The reranker \<open>UniversalBGEReranker("jina_api")\<close> constructs when \<open>_setup_jina_api\<close>
  succeeds, \<open>key\<close> being the text put after \<open>Bearer\<close>; and a reranker of some model
  type whose set-up failed, so that \<open>_initialized\<close> is still false. The attribute
  \<open>provider\<close> is only assigned by \<open>_setup_llm\<close>.
\<close>

definition jina_reranker :: "pystr \<Rightarrow> reranker" where
  "jina_reranker key =
     \<lparr>model_type = asc ''jina_api'', initialized = True,
      url = asc ''https://api.jina.ai/v1/rerank'',
      jina_headers = Some [(asc ''Content-Type'', asc ''application/json''),
                           (asc ''Authorization'', asc ''Bearer '' @ key)],
      llm_client = False, provider = []\<rparr>"

definition uninitialized_reranker :: "pystr \<Rightarrow> reranker" where
  "uninitialized_reranker mt =
     \<lparr>model_type = mt, initialized = False, url = [], jina_headers = None,
      llm_client = False, provider = []\<rparr>"

definition openai_reranker :: reranker where
  "openai_reranker =
     \<lparr>model_type = asc ''llm'', initialized = True, url = [], jina_headers = None,
      llm_client = True, provider = asc ''openai''\<rparr>"

text \<open>Services whose \<open>requests.post\<close> gives the result \<open>r\<close>.\<close>

definition posting :: "http_result \<Rightarrow> services" where
  "posting r = no_services\<lparr>post := r\<rparr>"

text \<open>
  A well-formed answer of the remote reranker for two documents: the second document
  first.
\<close>

definition good_response :: http_result where
  "good_response =
     Response 200 (Some (JDict [(asc ''results'',
       JList [JDict [(asc ''index'', JInt 1), (asc ''relevance_score'', JFloat (9 / 10))],
              JDict [(asc ''index'', JInt 0), (asc ''relevance_score'', JFloat (2 / 10))]])]))"

text \<open>
  \<open>results_listed result\<close>: the items the loop of \<open>_jina_api_rerank\<close> runs over for
  the decoded body \<open>result\<close> (none when \<open>'results' in result\<close> is false); \<open>None\<close>
  when reaching them raises.
\<close>

definition results_listed :: "json \<Rightarrow> json list option" where
  "results_listed result =
     do {
       has \<leftarrow> py_in (asc ''results'') result;
       if has then
         do {
           rs \<leftarrow> py_getitem_str result (asc ''results'');
           py_iter rs
         }
       else Some []
     }"

text \<open>
  \<open>request_fails sv documents\<close>: the request of this call raises, or the response has a
  status other than 200, or its body does not decode, or handling the decoded body raises.
\<close>

definition request_fails :: "services \<Rightarrow> pystr list \<Rightarrow> bool" where
  "request_fails sv documents =
     (case post sv of
        PostRaised \<Rightarrow> True
      | Response status_code body \<Rightarrow>
          status_code \<noteq> 200 \<or>
          (case body of
             None \<Rightarrow> True
           | Some result \<Rightarrow> jina_results (float_of_str sv) documents result = None))"

text \<open>
  Replies of the model: a JSON object with the final answer only, the same object in a
  code fence, and the object cut off before its closing brace.
\<close>

definition bare_reply :: pystr where
  \<open>bare_reply = asc ''{"final_answer":"42"}''\<close>

definition fenced_reply :: pystr where
  \<open>fenced_reply = asc ''```json'' @ [10] @ asc ''{"final_answer":"42"}'' @ [10] @ asc ''```''\<close>

definition truncated_reply :: pystr where
  \<open>truncated_reply = asc ''{"final_answer": "42"''\<close>

section \<open>Properties of the classifiers\<close>

lemma kb_tables_same:
  "kb_number_keywords = number_keywords" "kb_name_keywords = name_keywords"
  "kb_boolean_keywords = boolean_keywords" "kb_names_keywords = names_keywords"
  by (simp_all add: kb_number_keywords_def number_keywords_def kb_name_keywords_def
      name_keywords_def kb_boolean_keywords_def boolean_keywords_def
      kb_names_keywords_def names_keywords_def)

text \<open>
  C10. For every question (and whatever \<open>str.lower\<close> computes), the classifier of
  \<open>KnowledgeBase\<close> and the classifier of \<open>AnswerTypeClassifier\<close> return the same
  answer type.
\<close>

theorem classifiers_agree:
  "kb_determine_answer_type lower question = determine_answer_type lower question"
  unfolding kb_determine_answer_type_def determine_answer_type_def kb_tables_same ..

section \<open>Properties of the fused list\<close>


lemma keys_dict_set:
  "map fst (dict_set d k v) = (if k \<in> set (map fst d) then map fst d else map fst d @ [k])"
  by (induction d) force+

lemma keys_dict_upd: "map fst (dict_upd d k f) = map fst d"
  by (induction d) auto

lemma map_of_dict_set:
  "map_of (dict_set d k v) = (map_of d)(k \<mapsto> v)"
  by (induction d) (auto simp: fun_eq_iff)

lemma map_of_dict_upd:
  "map_of (dict_upd d k f) = (case map_of d k of None \<Rightarrow> map_of d | Some v \<Rightarrow> (map_of d)(k \<mapsto> f v))"
  by (induction d) (auto simp: fun_eq_iff split: option.splits)

lemma dict_has_iff: "dict_has d k \<longleftrightarrow> k \<in> set (map fst d)"
  by (simp add: dict_has_def map_of_eq_None_iff)

lemma keys_add_vector_aux:
  "map fst (foldl (\<lambda>all_results item.
        dict_set all_results (hit_id item) (g item)) d vs) = seen_acc (map fst d) (map hit_id vs)"
  by (induction vs arbitrary: d) (auto simp: keys_dict_set)

lemma keys_add_keyword_aux:
  "map fst (foldl (\<lambda>all_results item.
        if \<not> dict_has all_results (hit_id item)
        then dict_set all_results (hit_id item) (g item)
        else dict_upd all_results (hit_id item) (h item)) d ks) = seen_acc (map fst d) (map hit_id ks)"
  by (induction ks arbitrary: d) (auto simp: keys_dict_set keys_dict_upd dict_has_iff)

lemma seen_acc_append: "seen_acc seen (xs @ ys) = seen_acc (seen_acc seen xs) ys"
  by (induction xs arbitrary: seen) auto

lemma keys_all_results:
  "map fst (all_results vs ks) = seen_acc [] (map hit_id vs @ map hit_id ks)"
  unfolding all_results_def add_keyword_results_def add_vector_results_def
  by (simp add: keys_add_keyword_aux keys_add_vector_aux seen_acc_append)

lemma distinct_seen_acc: "distinct seen \<Longrightarrow> distinct (seen_acc seen xs)"
  by (induction xs arbitrary: seen) auto

lemma set_seen_acc: "set (seen_acc seen xs) = set seen \<union> set xs"
  by (induction xs arbitrary: seen) auto

lemma last_score_snoc:
  "last_score (hs @ [h]) i = (if hit_id h = i then hit_score h else last_score hs i)"
  by (simp add: last_score_def)

lemma last_score_notin: "i \<notin> hit_id ` set hs \<Longrightarrow> last_score hs i = 0"
  by (induction hs rule: rev_induct) (auto simp: last_score_snoc last_score_def)

lemma map_of_add_vector_results:
  "map_of (add_vector_results vs) i = Some sc \<Longrightarrow>
     s_id sc = i \<and> s_vector_score sc = last_score vs i \<and> s_keyword_score sc = 0"
  unfolding add_vector_results_def
  by (induction vs arbitrary: sc rule: rev_induct)
     (auto simp: map_of_dict_set last_score_snoc split: if_splits)

lemma keys_add_vector_results:
  "map fst (add_vector_results vs) = seen_acc [] (map hit_id vs)"
  unfolding add_vector_results_def by (simp add: keys_add_vector_aux)

lemma keys_add_keyword_results:
  "map fst (add_keyword_results d ks) = seen_acc (map fst d) (map hit_id ks)"
  unfolding add_keyword_results_def by (simp add: keys_add_keyword_aux)

lemma map_of_None_iff_keys: "map_of d i = None \<longleftrightarrow> i \<notin> set (map fst d)"
  by (simp add: map_of_eq_None_iff)

lemma add_keyword_results_None:
  "map_of (add_keyword_results d ks) i = None \<longleftrightarrow> map_of d i = None \<and> i \<notin> hit_id ` set ks"
  by (simp only: map_of_None_iff_keys keys_add_keyword_results set_seen_acc) auto

lemma add_vector_results_None:
  "map_of (add_vector_results vs) i = None \<longleftrightarrow> i \<notin> hit_id ` set vs"
  by (simp only: map_of_None_iff_keys keys_add_vector_results set_seen_acc) auto

lemma add_keyword_results_snoc:
  "add_keyword_results d (ks @ [k]) =
     (let r = add_keyword_results d ks in
      if \<not> dict_has r (hit_id k)
      then dict_set r (hit_id k)
          \<lparr>s_id = hit_id k, s_content = hit_content k,
           s_metadata = hit_metadata k,
           s_vector_score = 0, s_keyword_score = hit_score k\<rparr>
      else dict_upd r (hit_id k) (\<lambda>sc. sc\<lparr>s_keyword_score := hit_score k\<rparr>))"
  by (simp add: add_keyword_results_def Let_def)

lemma map_of_add_keyword_results:
  "map_of (add_keyword_results d ks) i = Some sc \<Longrightarrow>
     (case map_of d i of
        None \<Rightarrow> i \<in> hit_id ` set ks \<and> s_id sc = i \<and> s_vector_score sc = 0
               \<and> s_keyword_score sc = last_score ks i
      | Some sc0 \<Rightarrow> s_id sc = s_id sc0 \<and> s_vector_score sc = s_vector_score sc0
               \<and> s_keyword_score sc =
                    (if i \<in> hit_id ` set ks then last_score ks i else s_keyword_score sc0))"
proof (induction ks arbitrary: sc rule: rev_induct)
  case Nil
  then show ?case by (simp add: add_keyword_results_def)
next
  case (snoc k ks)
  show ?case
  proof (cases "map_of (add_keyword_results d ks) (hit_id k)")
    case None
    then have n: "map_of d (hit_id k) = None" "hit_id k \<notin> hit_id ` set ks"
      by (simp_all add: add_keyword_results_None)
    show ?thesis
    proof (cases "i = hit_id k")
      case True
      with snoc.prems None n show ?thesis
        by (auto simp: add_keyword_results_snoc dict_has_def map_of_dict_set last_score_snoc)
    next
      case False
      with snoc.prems None have "map_of (add_keyword_results d ks) i = Some sc"
        by (simp add: add_keyword_results_snoc dict_has_def map_of_dict_set)
      from snoc.IH[OF this] False show ?thesis
        by (auto simp: last_score_snoc split: option.splits)
    qed
  next
    case (Some sck)
    show ?thesis
    proof (cases "i = hit_id k")
      case True
      with snoc.prems Some have sc: "sc = sck\<lparr>s_keyword_score := hit_score k\<rparr>"
        by (simp add: add_keyword_results_snoc dict_has_def map_of_dict_upd)
      from Some True have "map_of (add_keyword_results d ks) i = Some sck" by simp
      from snoc.IH[OF this] True sc show ?thesis
        by (auto simp: last_score_snoc split: option.splits)
    next
      case False
      with snoc.prems Some have "map_of (add_keyword_results d ks) i = Some sc"
        by (simp add: add_keyword_results_snoc dict_has_def map_of_dict_upd)
      from snoc.IH[OF this] False show ?thesis
        by (auto simp: last_score_snoc split: option.splits)
    qed
  qed
qed

lemma all_results_entry:
  assumes "(i, sc) \<in> set (all_results vs ks)"
  shows "s_id sc = i \<and> s_vector_score sc = last_score vs i
         \<and> s_keyword_score sc = last_score ks i"
proof -
  have d: "distinct (map fst (all_results vs ks))"
    by (simp add: keys_all_results distinct_seen_acc)
  with assms have m: "map_of (all_results vs ks) i = Some sc" by simp
  show ?thesis
  proof (cases "map_of (add_vector_results vs) i")
    case None
    then have "i \<notin> hit_id ` set vs"
      by (simp add: add_vector_results_None)
    with None map_of_add_keyword_results[OF m[unfolded all_results_def]] show ?thesis
      by (simp add: last_score_notin)
  next
    case (Some sc0)
    with map_of_add_vector_results[OF Some]
      map_of_add_keyword_results[OF m[unfolded all_results_def]] show ?thesis
      by (auto simp: last_score_notin)
  qed
qed

lemma seen_acc_first_seen:
  "seen_acc seen xs = seen @ filter (\<lambda>i. i \<notin> set seen) (first_seen xs)"
proof (induction xs arbitrary: seen)
  case Nil
  then show ?case by simp
next
  case (Cons x xs)
  have "x \<in> set seen \<Longrightarrow>
    filter (\<lambda>i. i \<notin> set seen) (filter (\<lambda>y. y \<noteq> x) (first_seen xs))
      = filter (\<lambda>i. i \<notin> set seen) (first_seen xs)"
    by (auto intro: filter_cong)
  moreover have "filter (\<lambda>i. i \<noteq> x \<and> i \<notin> set seen) (first_seen xs)
      = filter (\<lambda>i. i \<notin> set seen \<and> i \<noteq> x) (first_seen xs)"
    by (auto intro: filter_cong)
  ultimately show ?case using Cons by simp
qed

lemma keys_all_results_order:
  "map fst (all_results vs ks) = insertion_order vs ks"
  by (simp add: keys_all_results seen_acc_first_seen insertion_order_def)

lemma distinct_insertion_order: "distinct (insertion_order vs ks)"
  unfolding keys_all_results_order[symmetric]
  by (simp add: keys_all_results distinct_seen_acc)

lemma first_seen_append:
  "first_seen (xs @ ys) = first_seen xs @ filter (\<lambda>i. i \<notin> set xs) (first_seen ys)"
proof (induction xs)
  case Nil
  then show ?case by simp
next
  case (Cons x xs)
  have "filter (\<lambda>y. y \<noteq> x) (filter (\<lambda>i. i \<notin> set xs) (first_seen ys))
      = filter (\<lambda>i. i \<noteq> x \<and> i \<notin> set xs) (first_seen ys)"
    by (auto intro: filter_cong)
  with Cons show ?case by simp
qed

lemma set_first_seen: "set (first_seen xs) = set xs"
  by (induction xs) auto

lemma filter_first_seen: "filter P (first_seen xs) = first_seen (filter P xs)"
proof (induction xs)
  case Nil
  then show ?case by simp
next
  case (Cons x xs)
  have "filter P (filter (\<lambda>y. y \<noteq> x) (first_seen xs))
        = filter (\<lambda>y. y \<noteq> x) (filter P (first_seen xs))"
    by (auto intro: filter_cong)
  moreover have "\<not> P x \<Longrightarrow> filter (\<lambda>y. y \<noteq> x) (first_seen (filter P xs)) = first_seen (filter P xs)"
    by (rule filter_True) (auto simp: set_first_seen)
  ultimately show ?case using Cons by simp
qed

lemma insertion_order_dense_first:
  "insertion_order vs ks =
     first_seen (map hit_id vs) @
     first_seen (filter (\<lambda>i. i \<notin> hit_id ` set vs) (map hit_id ks))"
  by (simp add: insertion_order_def first_seen_append filter_first_seen)

lemma scored_fields:
  "c_id (scored w sc) = s_id sc" "vector_score (scored w sc) = s_vector_score sc"
  "keyword_score (scored w sc) = s_keyword_score sc"
  "hybrid_score (scored w sc) = s_vector_score sc * w + s_keyword_score sc * (1 - w)"
  by (simp_all add: scored_def)

lemma set_pre_rerank_results:
  "set (pre_rerank_results vs ks w) = (\<lambda>(i, sc). scored w sc) ` set (all_results vs ks)"
  by (simp add: pre_rerank_results_def sort_desc_def)

lemma pre_rerank_results_member:
  assumes "c \<in> set (pre_rerank_results vs ks w)"
  shows "hybrid_score c = vector_score c * w + keyword_score c * (1 - w)
         \<and> vector_score c = last_score vs (c_id c)
         \<and> keyword_score c = last_score ks (c_id c)
         \<and> c_id c \<in> set (insertion_order vs ks)"
proof -
  from assms obtain i sc where e: "(i, sc) \<in> set (all_results vs ks)" and c: "c = scored w sc"
    by (auto simp: set_pre_rerank_results)
  from e have "i \<in> set (map fst (all_results vs ks))" by force
  with all_results_entry[OF e] c show ?thesis
    by (simp add: scored_fields keys_all_results_order)
qed

lemma ids_unsorted:
  "map c_id (map (\<lambda>(i, sc). scored w sc) (all_results vs ks)) = insertion_order vs ks"
proof -
  have "map c_id (map (\<lambda>(i, sc). scored w sc) (all_results vs ks))
        = map fst (all_results vs ks)"
    by (auto simp: scored_fields dest: all_results_entry)
  then show ?thesis by (simp add: keys_all_results_order)
qed

lemma distinct_map_sort_desc: "distinct (map f (sort_desc k xs)) = distinct (map f xs)"
  by (simp add: sort_desc_def distinct_map)

lemma set_map_sort_desc: "set (map f (sort_desc k xs)) = set (map f xs)"
  by (simp add: sort_desc_def)

lemma distinct_ids_pre_rerank_results:
  "distinct (map c_id (pre_rerank_results vs ks w))"
  unfolding pre_rerank_results_def distinct_map_sort_desc
  by (simp only: ids_unsorted distinct_insertion_order)

lemma ids_pre_rerank_results:
  "set (map c_id (pre_rerank_results vs ks w)) = hit_id ` set vs \<union> hit_id ` set ks"
proof -
  have "set (map c_id (pre_rerank_results vs ks w))
      = set (map c_id (map (\<lambda>(i, sc). scored w sc) (all_results vs ks)))"
    unfolding pre_rerank_results_def by (rule set_map_sort_desc)
  then show ?thesis
    by (simp only: ids_unsorted) (simp add: insertion_order_def set_first_seen)
qed

lemma sort_desc_sorted: "sorted_wrt (\<lambda>a b. f a \<ge> f b) (sort_desc f xs)"
proof -
  have "sorted (map (\<lambda>x. - f x) (sort_key (\<lambda>x. - f x) xs))" by (rule sorted_sort_key)
  then show ?thesis by (simp add: sort_desc_def sorted_map)
qed

lemma by_score_desc_pre_rerank_results: "by_score_desc (pre_rerank_results vs ks w)"
  by (simp add: by_score_desc_def pre_rerank_results_def sort_desc_sorted)

lemma slice_to_take: "\<exists>n. slice_to xs k = take n xs"
  by (auto simp: slice_to_def)

lemma by_score_desc_slice: "by_score_desc xs \<Longrightarrow> by_score_desc (slice_to xs k)"
  using slice_to_take[of xs k] by (auto simp: by_score_desc_def sorted_wrt_take)

lemma set_slice_to: "set (slice_to xs k) \<subseteq> set xs"
  using slice_to_take[of xs k] by (auto dest: in_set_takeD)

lemma nth_pair_decomp:
  assumes "i < j" "j < length xs"
  shows "\<exists>us vs ws. xs = us @ xs ! i # vs @ xs ! j # ws"
proof -
  from assms have i: "i < length xs" by simp
  have 1: "xs = take i xs @ xs ! i # drop (Suc i) xs"
    using i by (simp add: id_take_nth_drop)
  let ?r = "drop (Suc i) xs"
  from assms have j: "j - Suc i < length ?r" by simp
  have 2: "?r = take (j - Suc i) ?r @ ?r ! (j - Suc i) # drop (Suc (j - Suc i)) ?r"
    using j by (rule id_take_nth_drop)
  from assms have 3: "?r ! (j - Suc i) = xs ! j" by simp
  from 1 2 3 show ?thesis by metis
qed

lemma decomp_nth_pair:
  assumes "xs = us @ x # vs @ y # ws"
  shows "\<exists>a b. a < b \<and> b < length xs \<and> xs ! a = x \<and> xs ! b = y"
proof -
  let ?a = "length us" and ?b = "length us + Suc (length vs)"
  have "xs ! ?a = x" using assms by simp
  moreover have "xs ! ?b = y" using assms by (simp add: nth_append)
  moreover have "?a < ?b" "?b < length xs" using assms by simp_all
  ultimately show ?thesis by blast
qed

lemma filter_eq_appendD:
  "filter P xs = as @ bs \<Longrightarrow> \<exists>us vs. xs = us @ vs \<and> filter P us = as \<and> filter P vs = bs"
proof (induction as arbitrary: xs)
  case Nil
  then show ?case by (intro exI[of _ "[]"] exI[of _ xs]) simp
next
  case (Cons a as)
  from Cons.prems obtain u v where
    x: "xs = u @ a # v" "\<forall>y\<in>set u. \<not> P y" "P a" "filter P v = as @ bs"
    by (auto simp: filter_eq_Cons_iff)
  from Cons.IH[OF x(4)] obtain us vs where
    v: "v = us @ vs" "filter P us = as" "filter P vs = bs" by blast
  from x(2) have "filter P u = []" by simp
  with x v have "xs = (u @ a # us) @ vs \<and> filter P (u @ a # us) = a # as \<and> filter P vs = bs"
    by simp
  then show ?case by blast
qed

lemma sort_desc_stable:
  "filter (\<lambda>y. f y = k) (sort_desc f xs) = filter (\<lambda>y. f y = k) xs"
  using sort_key_stable[of "\<lambda>x. - f x" "- k" xs] by (simp add: sort_desc_def)

lemma filter_pair_decomp:
  assumes "filter P xs = us @ x # vs @ y # ws"
  shows "\<exists>us' vs' ws'. xs = us' @ x # vs' @ y # ws'"
proof -
  from filter_eq_appendD[OF assms] obtain a b
    where ab: "xs = a @ b" "filter P b = x # vs @ y # ws" by blast
  then obtain c d where cd: "b = c @ x # d" "filter P d = vs @ y # ws"
    by (auto simp: filter_eq_Cons_iff)
  from filter_eq_appendD[OF cd(2)] obtain e f
    where ef: "d = e @ f" "filter P f = y # ws" by blast
  then obtain g h where gh: "f = g @ y # h"
    by (auto simp: filter_eq_Cons_iff)
  from ab cd ef gh have "xs = (a @ c) @ x # (e @ g) @ y # h" by simp
  then show ?thesis by blast
qed

lemma sort_desc_ties:
  assumes "i < j" "j < length (sort_desc f xs)"
    and "f (sort_desc f xs ! i) = f (sort_desc f xs ! j)"
  shows "\<exists>us vs ws. xs = us @ sort_desc f xs ! i # vs @ sort_desc f xs ! j # ws"
proof -
  let ?S = "sort_desc f xs"
  let ?P = "\<lambda>y. f y = f (?S ! i)"
  from nth_pair_decomp[OF assms(1,2)] obtain us vs ws
    where S: "?S = us @ ?S ! i # vs @ ?S ! j # ws" by blast
  have "filter ?P ?S = filter ?P (us @ ?S ! i # vs @ ?S ! j # ws)"
    using S by simp
  also have "\<dots> = filter ?P us @ ?S ! i # filter ?P vs @ ?S ! j # filter ?P ws"
    using assms(3) by simp
  finally have "filter ?P xs = filter ?P us @ ?S ! i # filter ?P vs @ ?S ! j # filter ?P ws"
    by (simp only: sort_desc_stable)
  then show ?thesis by (rule filter_pair_decomp)
qed

lemma pre_rerank_results_ties:
  assumes "i < j" "j < length (pre_rerank_results vs ks w)"
    and "hybrid_score (pre_rerank_results vs ks w ! i)
         = hybrid_score (pre_rerank_results vs ks w ! j)"
  shows "\<exists>a b. a < b \<and> b < length (insertion_order vs ks)
           \<and> insertion_order vs ks ! a = c_id (pre_rerank_results vs ks w ! i)
           \<and> insertion_order vs ks ! b = c_id (pre_rerank_results vs ks w ! j)"
proof -
  let ?G = "map (\<lambda>(doc_id, sc). scored w sc) (all_results vs ks)"
  let ?F = "pre_rerank_results vs ks w"
  have F: "?F = sort_desc hybrid_score ?G" by (simp add: pre_rerank_results_def)
  from sort_desc_ties[of i j hybrid_score ?G] assms obtain us ms ws
    where "?G = us @ ?F ! i # ms @ ?F ! j # ws" unfolding F by blast
  then have "map c_id ?G = map c_id us @ c_id (?F ! i) # map c_id ms @ c_id (?F ! j) # map c_id ws"
    by simp
  then have "insertion_order vs ks
      = map c_id us @ c_id (?F ! i) # map c_id ms @ c_id (?F ! j) # map c_id ws"
    by (simp only: ids_unsorted)
  then show ?thesis by (rule decomp_nth_pair)
qed

lemma rerank_block_False: "rerank_block rr sv q pre k False = None"
  by (simp add: rerank_block_def)

lemma hybrid_search_no_rerank:
  "vector_hits env = Inr vs \<Longrightarrow> keyword_hits env = Inr ks \<Longrightarrow>
   hybrid_search env sv q k w False = Inr (slice_to (pre_rerank_results vs ks w) k)"
  by (simp add: hybrid_search_def rerank_block_False)

lemma list_get_member: "list_get xs i = Some x \<Longrightarrow> x \<in> set xs"
  by (auto simp: list_get_def Let_def split: if_splits)

lemma list_get_json_member: "list_get_json xs v = Some x \<Longrightarrow> x \<in> set xs"
  by (auto simp: list_get_json_def dest: list_get_member split: option.splits)

lemma assemble_members:
  "assemble S rs acc = Some out \<Longrightarrow> c \<in> set out \<Longrightarrow>
     c \<in> set acc \<or> (\<exists>c0 \<in> set S. same_scores c c0)"
proof (induction rs arbitrary: acc)
  case Nil
  then show ?case by simp
next
  case (Cons r rs)
  from Cons.prems(1) obtain c1 idx where
    g: "list_get_json S (o_index r) = Some c1" and
    a: "assemble S rs (acc @ [c1\<lparr>rerank_score := Some (o_rerank_score r),
          rerank_position := Some (int (length acc) + 1),
          original_position := Some (idx + 1)\<rparr>]) = Some out"
    by (auto split: option.splits)
  from Cons.IH[OF a Cons.prems(2)] list_get_json_member[OF g] show ?case
    by (auto simp: same_scores_def)
qed

lemma rerank_block_members:
  assumes "rerank_block rr sv q pre k u = Some out" "c \<in> set out"
  shows "\<exists>c0 \<in> set pre. same_scores c c0"
proof -
  from assms(1) obtain r rs ss where
    1: "rerank_search_results r sv q pre (min (k * 2) (int (length pre))) = Some rs"
    and 2: "sort_by_rerank_score rs = Some ss" and 3: "out = slice_to ss k"
    by (auto simp: rerank_block_def split: if_splits option.splits bind_splits)
  from 2 have "set ss = set rs"
    by (auto simp: sort_by_rerank_score_def sort_desc_def split: if_splits)
  with 3 assms(2) set_slice_to[of ss k] have c: "c \<in> set rs" by auto
  from 1 have "rs = [] \<or> assemble pre (rerank r sv q (map c_content pre)
      (min (k * 2) (int (length pre)))) [] = Some rs"
    by (auto simp: rerank_search_results_def Let_def split: if_splits)
  with c assemble_members[of pre _ "[]" rs c] show ?thesis by auto
qed

lemma hybrid_search_members:
  assumes "vector_hits env = Inr vs" "keyword_hits env = Inr ks"
  shows "\<exists>out. hybrid_search env sv q k w u = Inr out
           \<and> (\<forall>c\<in>set out. \<exists>c0\<in>set (pre_rerank_results vs ks w). same_scores c c0)"
proof (cases "rerank_block (high_comp_reranker env) sv q (pre_rerank_results vs ks w) k u")
  case None
  with assms have "hybrid_search env sv q k w u = Inr (slice_to (pre_rerank_results vs ks w) k)"
    by (simp add: hybrid_search_def)
  moreover have "\<forall>c\<in>set (slice_to (pre_rerank_results vs ks w) k).
      \<exists>c0\<in>set (pre_rerank_results vs ks w). same_scores c c0"
    using set_slice_to[of "pre_rerank_results vs ks w" k] by (auto simp: same_scores_def)
  ultimately show ?thesis by blast
next
  case (Some out)
  with assms have "hybrid_search env sv q k w u = Inr out"
    by (simp add: hybrid_search_def)
  with rerank_block_members[OF Some] show ?thesis by blast
qed

lemma filter_unique:
  "distinct (map f xs) \<Longrightarrow> x \<in> set xs \<Longrightarrow> filter (\<lambda>y. f y = f x) xs = [x]"
proof (induction xs)
  case Nil
  then show ?case by simp
next
  case (Cons a xs)
  show ?case
  proof (cases "x = a")
    case True
    with Cons.prems have "filter (\<lambda>y. f y = f x) xs = []"
      by (auto simp: filter_empty_conv) (metis imageI)
    with True show ?thesis by simp
  next
    case False
    with Cons show ?thesis by auto
  qed
qed

lemma filter_at_most_one:
  "distinct (map f xs) \<Longrightarrow> length (filter (\<lambda>y. f y = k) xs) \<le> 1"
proof (induction xs)
  case Nil
  then show ?case by simp
next
  case (Cons a xs)
  show ?case
  proof (cases "f a = k")
    case True
    with Cons.prems have "filter (\<lambda>y. f y = k) xs = []"
      by (auto simp: filter_empty_conv) (metis imageI)
    with True show ?thesis by simp
  next
    case False
    with Cons show ?thesis by simp
  qed
qed

lemma last_score_distinct:
  "distinct (map hit_id hs) \<Longrightarrow> d \<in> set hs \<Longrightarrow> last_score hs (hit_id d) = hit_score d"
proof (induction hs rule: rev_induct)
  case Nil
  then show ?case by simp
next
  case (snoc h hs)
  then show ?case by (auto simp: last_score_snoc)
qed

lemma distinct_ids_slice:
  "distinct (map c_id (slice_to (pre_rerank_results vs ks w) k))"
proof -
  obtain n where "slice_to (pre_rerank_results vs ks w) k = take n (pre_rerank_results vs ks w)"
    using slice_to_take by blast
  then show ?thesis
    using distinct_ids_pre_rerank_results[of vs ks w] by (simp add: take_map[symmetric])
qed



text \<open>
  C3, as the code has it. In the fused list \<open>pre_rerank_results\<close> the ids are unique,
  and an id that both searches returned has exactly one candidate there; its
  \<open>vector_score\<close> is the score of the last vector hit with that id and its
  \<open>keyword_score\<close> the score of the last keyword hit with it (the hit's own score when
  the ids of a hit list are unique). The list returned without reranking is the prefix
  \<open>pre_rerank_results[:top_k]\<close>: its ids are unique, and it holds at most one candidate
  with that id.
\<close>

theorem fused_ids_unique:
  assumes "vector_hits env = Inr vs" and "keyword_hits env = Inr ks"
    and "d \<in> set vs" and "s \<in> set ks" and "hit_id d = hit_id s"
  shows "distinct (map c_id (pre_rerank_results vs ks w))
       \<and> (\<exists>c. filter (\<lambda>c. c_id c = hit_id d) (pre_rerank_results vs ks w) = [c]
              \<and> vector_score c = last_score vs (hit_id d)
              \<and> keyword_score c = last_score ks (hit_id d))
       \<and> (distinct (map hit_id vs) \<longrightarrow> last_score vs (hit_id d) = hit_score d)
       \<and> (distinct (map hit_id ks) \<longrightarrow> last_score ks (hit_id d) = hit_score s)
       \<and> hybrid_search env sv q top_k w False
           = Inr (slice_to (pre_rerank_results vs ks w) top_k)
       \<and> distinct (map c_id (slice_to (pre_rerank_results vs ks w) top_k))
       \<and> length (filter (\<lambda>c. c_id c = hit_id d)
                  (slice_to (pre_rerank_results vs ks w) top_k)) \<le> 1"
proof -
  let ?F = "pre_rerank_results vs ks w"
  have 1: "distinct (map c_id ?F)" by (rule distinct_ids_pre_rerank_results)
  from assms(3) have "hit_id d \<in> set (map c_id ?F)"
    by (simp only: ids_pre_rerank_results) simp
  then obtain c where c: "c \<in> set ?F" "c_id c = hit_id d" by auto
  from filter_unique[OF 1 c(1)] c(2)
  have f: "filter (\<lambda>c. c_id c = hit_id d) ?F = [c]" by simp
  from pre_rerank_results_member[OF c(1)] c(2)
  have "vector_score c = last_score vs (hit_id d)"
    "keyword_score c = last_score ks (hit_id d)" by simp_all
  with f have 2: "\<exists>c. filter (\<lambda>c. c_id c = hit_id d) ?F = [c]
              \<and> vector_score c = last_score vs (hit_id d)
              \<and> keyword_score c = last_score ks (hit_id d)" by blast
  have 3: "distinct (map hit_id vs) \<longrightarrow> last_score vs (hit_id d) = hit_score d"
    using assms(3) by (simp add: last_score_distinct)
  have 4: "distinct (map hit_id ks) \<longrightarrow> last_score ks (hit_id d) = hit_score s"
    using assms(4,5) by (simp add: last_score_distinct)
  have 5: "hybrid_search env sv q top_k w False = Inr (slice_to ?F top_k)"
    using assms(1,2) by (rule hybrid_search_no_rerank)
  have 6: "distinct (map c_id (slice_to ?F top_k))" by (rule distinct_ids_slice)
  have 7: "length (filter (\<lambda>c. c_id c = hit_id d) (slice_to ?F top_k)) \<le> 1"
    using 6 by (rule filter_at_most_one)
  from 1 2 3 4 5 6 7 show ?thesis by blast
qed

lemma example_fused:
  "pre_rerank_results example_dense example_sparse (7 / 10) =
     [\<lparr>c_id = asc ''A'', c_content = asc ''a'', c_metadata = (), hybrid_score = 63 / 100,
       vector_score = 9 / 10, keyword_score = 0, rerank_score = None,
       rerank_position = None, original_position = None\<rparr>,
      \<lparr>c_id = asc ''B'', c_content = asc ''b'', c_metadata = (), hybrid_score = 52 / 100,
       vector_score = 4 / 10, keyword_score = 8 / 10, rerank_score = None,
       rerank_position = None, original_position = None\<rparr>,
      \<lparr>c_id = asc ''C'', c_content = asc ''c'', c_metadata = (), hybrid_score = 15 / 100,
       vector_score = 0, keyword_score = 5 / 10, rerank_score = None,
       rerank_position = None, original_position = None\<rparr>]"
  by (simp add: pre_rerank_results_def example_dense_def example_sparse_def
      all_results_def add_vector_results_def add_keyword_results_def asc_def
      dict_has_def scored_def sort_desc_def)

theorem fused_ids_unique_witness:
  "filter (\<lambda>c. c_id c = asc ''B'')
      (pre_rerank_results example_dense example_sparse (7 / 10))
    = [\<lparr>c_id = asc ''B'', c_content = asc ''b'', c_metadata = (), hybrid_score = 52 / 100,
        vector_score = 4 / 10, keyword_score = 8 / 10, rerank_score = None,
        rerank_position = None, original_position = None\<rparr>]
   \<and> last_score example_dense (asc ''B'') = 4 / 10
   \<and> last_score example_sparse (asc ''B'') = 8 / 10
   \<and> distinct (map c_id (pre_rerank_results example_dense example_sparse (7 / 10)))
   \<and> hybrid_search example_retrieval no_services (asc ''q'') 1 (7 / 10) False
       = Inr (slice_to (pre_rerank_results example_dense example_sparse (7 / 10)) 1)"
proof -
  let ?d = "\<lparr>hit_id = asc ''B'', hit_score = 4 / 10, hit_content = asc ''b'',
             hit_metadata = ()\<rparr>"
  let ?s = "\<lparr>hit_id = asc ''B'', hit_score = 8 / 10, hit_content = asc ''b'',
             hit_metadata = ()\<rparr>"
  have v: "vector_hits example_retrieval = Inr example_dense"
    and k: "keyword_hits example_retrieval = Inr example_sparse"
    by (simp_all add: example_retrieval_def)
  have d: "?d \<in> set example_dense" and s: "?s \<in> set example_sparse"
    and e: "hit_id ?d = hit_id ?s"
    by (simp_all add: example_dense_def example_sparse_def)
  have dd: "distinct (map hit_id example_dense)" "distinct (map hit_id example_sparse)"
    by (simp_all add: example_dense_def example_sparse_def asc_def)
  from fused_ids_unique[OF v k d s e, of "7 / 10" no_services "asc ''q''" 1] dd
  show ?thesis by (simp add: example_fused asc_def)
qed

text \<open>
  With \<open>top_k = 1\<close> the list returned for the example holds A only: B, which both
  searches returned, has no candidate in it.
\<close>

theorem fused_ids_unique_counterexample:
  "asc ''B'' \<in> hit_id ` set example_dense \<and> asc ''B'' \<in> hit_id ` set example_sparse
   \<and> hybrid_search example_retrieval no_services (asc ''q'') 1 (7 / 10) False
       = Inr [\<lparr>c_id = asc ''A'', c_content = asc ''a'', c_metadata = (),
               hybrid_score = 63 / 100, vector_score = 9 / 10, keyword_score = 0,
               rerank_score = None, rerank_position = None, original_position = None\<rparr>]"
  by (simp add: hybrid_search_def rerank_block_def example_retrieval_def example_fused
      slice_to_def) (simp add: example_dense_def example_sparse_def)



section \<open>Properties of the reranker\<close>

lemma length_slice_to_nonneg:
  "0 \<le> k \<Longrightarrow> length (slice_to xs k) = nat (min k (int (length xs)))"
  by (auto simp: slice_to_def min_def)

lemma slice_to_nonneg: "0 \<le> k \<Longrightarrow> slice_to xs k = take (nat (min k (int (length xs)))) xs"
  by (auto simp: slice_to_def min_def)

lemma length_passthrough: "length (passthrough documents k) = length (slice_to documents k)"
  by (simp add: passthrough_def)

lemma passthrough_texts: "map o_text (passthrough documents k) = slice_to documents k"
  by (simp add: passthrough_def comp_def case_prod_unfold)

lemma map_on_fst_enumerate:
  "map (\<lambda>p. g (fst p)) (enumerate 0 xs) = map g [0..<length xs]"
proof -
  have "map (\<lambda>p. g (fst p)) (enumerate 0 xs) = map g (map fst (enumerate 0 xs))"
    unfolding map_map comp_def ..
  then show ?thesis by (simp only: map_fst_enumerate) simp
qed

lemma passthrough_indexes:
  "map o_index (passthrough documents k)
     = map (\<lambda>i. JInt (int i)) [0..<length (slice_to documents k)]"
  using map_on_fst_enumerate[of "\<lambda>i. JInt (int i)" "slice_to documents k"]
  by (simp add: passthrough_def comp_def case_prod_unfold)

lemma passthrough_scores:
  "map o_rerank_score (passthrough documents k)
     = map (\<lambda>i. 1 / (real i + 1)) [0..<length (slice_to documents k)]"
  "map o_score (passthrough documents k)
     = map (\<lambda>i. 1 / (real i + 1)) [0..<length (slice_to documents k)]"
  using map_on_fst_enumerate[of "\<lambda>i. 1 / (real i + 1)" "slice_to documents k"]
  by (simp_all add: passthrough_def comp_def case_prod_unfold)

lemma passthrough_Nil: "passthrough [] k = []"
  by (simp add: passthrough_def slice_to_def)

lemma rerank_uninitialized:
  "\<not> initialized self \<Longrightarrow> rerank self sv q documents k = passthrough documents k"
  by (simp add: rerank_def cross_encoder_rerank_def jina_api_rerank_def llm_rerank_def
      passthrough_Nil)




lemma those_length: "those xs = Some ys \<Longrightarrow> length ys = length xs"
  by (induction xs arbitrary: ys) (auto split: option.splits)

lemma jina_results_length:
  assumes "jina_results fos documents result = Some rs"
  shows "\<exists>items. results_listed result = Some items \<and> length rs = length items"
proof (cases "py_in (asc ''results'') result")
  case None
  with assms show ?thesis by (simp add: jina_results_def)
next
  case (Some has)
  show ?thesis
  proof (cases has)
    case False
    with Some assms show ?thesis by (simp add: jina_results_def results_listed_def)
  next
    case True
    with Some assms obtain v items where
      v: "py_getitem_str result (asc ''results'') = Some v" "py_iter v = Some items"
      and t: "those (map (jina_item fos documents) (enumerate 0 items)) = Some rs"
      by (auto simp: jina_results_def split: bind_splits)
    from those_length[OF t] have "length rs = length items" by simp
    with v Some True show ?thesis by (simp add: results_listed_def)
  qed
qed

lemma llm_loop_length:
  "p < k \<Longrightarrow> length (llm_loop r xs k p acc) = length acc + min (nat (k - p)) (length xs)"
proof (induction xs arbitrary: p acc)
  case Nil
  then show ?case by simp
next
  case (Cons x xs)
  obtain i doc where x: "x = (i, doc)" by (cases x)
  show ?case
  proof (cases "p + 1 \<ge> k")
    case True
    with Cons.prems have "nat (k - p) = 1" by simp
    with True x show ?thesis by (simp add: Let_def)
  next
    case False
    then have lt: "p + 1 < k" by simp
    have "nat (k - p) = Suc (nat (k - (p + 1)))" using lt by simp
    with Cons.IH[OF lt] False x show ?thesis by (simp add: Let_def)
  qed
qed

lemma nat_min_int: "0 \<le> k \<Longrightarrow> nat (min k (int n)) = min (nat k) n"
  by (simp add: min_def nat_le_iff)

lemma cross_encoder_length:
  "0 \<le> k \<Longrightarrow>
   length (cross_encoder_rerank self sv q documents k) = nat (min k (int (length documents)))"
  by (auto simp: cross_encoder_rerank_def length_passthrough length_slice_to_nonneg
      sort_desc_def Let_def min_def split: option.splits)

lemma llm_length:
  assumes "1 \<le> k"
  shows "length (llm_rerank self sv q documents k) = nat (min k (int (length documents)))"
proof -
  have p: "length (passthrough documents k) = nat (min k (int (length documents)))"
    using assms by (simp add: length_passthrough length_slice_to_nonneg)
  have l: "length (sort_desc o_rerank_score (llm_loop r (enumerate 0 documents) k 0 []))
      = nat (min k (int (length documents)))" for r
    using assms llm_loop_length[of 0 k r "enumerate 0 documents" "[]"]
    by (simp add: sort_desc_def nat_min_int)
  show ?thesis
    by (simp add: llm_rerank_def p l split: option.splits)
qed

lemma jina_length:
  assumes "0 \<le> k"
  shows "length (fst (jina_api_rerank self sv q documents k))
           = nat (min k (int (length documents)))
       \<or> (\<exists>result items. post sv = Response 200 (Some result)
             \<and> results_listed result = Some items
             \<and> length (fst (jina_api_rerank self sv q documents k)) = length items)"
proof -
  have p: "length (passthrough documents k) = nat (min k (int (length documents)))"
    using assms by (simp add: length_passthrough length_slice_to_nonneg)
  show ?thesis
  proof (cases "fst (jina_api_rerank self sv q documents k) = passthrough documents k")
    case True
    with p show ?thesis by simp
  next
    case False
    then obtain result rs where "post sv = Response 200 (Some result)"
      "jina_results (float_of_str sv) documents result = Some rs"
      "fst (jina_api_rerank self sv q documents k) = rs"
      by (auto simp: jina_api_rerank_def split: if_splits http_result.splits option.splits)
    with jina_results_length[of "float_of_str sv" documents result rs] show ?thesis
      by auto
  qed
qed




lemma jina_api_rerank_posts:
  "initialized self \<Longrightarrow> truthy (jina_headers self) \<Longrightarrow>
   snd (jina_api_rerank self sv q documents k) = [jina_request self q documents k]"
  by (simp add: jina_api_rerank_def)

lemma jina_api_rerank_success:
  "initialized self \<Longrightarrow> truthy (jina_headers self) \<Longrightarrow>
   post sv = Response 200 (Some result) \<Longrightarrow>
   jina_results (float_of_str sv) documents result = Some rs \<Longrightarrow>
   fst (jina_api_rerank self sv q documents k) = rs"
  by (simp add: jina_api_rerank_def)

lemma jina_results_no_key:
  "py_in (asc ''results'') result = Some False \<Longrightarrow> jina_results fos documents result = Some []"
  by (simp add: jina_results_def)


lemma good_response_results:
  "jina_results fos [asc ''a'', asc ''b''] 
     (JDict [(asc ''results'',
       JList [JDict [(asc ''index'', JInt 1), (asc ''relevance_score'', JFloat (9 / 10))],
              JDict [(asc ''index'', JInt 0), (asc ''relevance_score'', JFloat (2 / 10))]])])
    = Some [\<lparr>o_index = JInt 1, o_score = 9 / 10, o_text = asc ''b'',
              o_original_rank = JInt 1, o_rerank_score = 9 / 10\<rparr>,
            \<lparr>o_index = JInt 0, o_score = 2 / 10, o_text = asc ''a'',
              o_original_rank = JInt 0, o_rerank_score = 2 / 10\<rparr>]"
  by (simp add: jina_results_def jina_item_def list_get_json_def list_get_def asc_def
      dict_has_def enumerate_eq_zip)



section \<open>Properties of the parser\<close>

lemma dict_has_dict_set: "dict_has (dict_set d k v) k' \<longleftrightarrow> k' = k \<or> dict_has d k'"
  by (auto simp: dict_has_def map_of_dict_set)

lemma has_four_fields_fill_missing: "has_four_fields (JDict (fill_missing result pt))"
  by (simp add: has_four_fields_def fill_missing_def Let_def dict_has_dict_set)

lemma parse_error_fields:
  "has_four_fields (JDict [(key_step, JStr a), (key_summary, JStr b),
     (key_pages, JList []), (key_final, JStr c)])"
  by (simp add: has_four_fields_def dict_has_def)

lemma regex_step_fields: "regex_step rt pt = Inr v \<Longrightarrow> has_four_fields v"
  by (auto simp: regex_step_def has_four_fields_fill_missing parse_error_fields
      split: sum.splits if_splits)

text \<open>
  C1, as the code has it. \<open>parse\<close> is a total function of the text: every exception
  of its body reaches the outer handler, which returns a dict. Whatever
  \<open>json.loads\<close> does, when one of its three calls in the first two steps decodes a
  value, \<open>parse\<close> returns that value as it is; when none does, the result is a dict
  that holds all four fields \<open>step_by_step_analysis\<close>, \<open>reasoning_summary\<close>,
  \<open>relevant_pages\<close> and \<open>final_answer\<close>.
\<close>

theorem parse_populated_unless_decoded:
  "(decoded rt txt = Some v \<longrightarrow> parse rt txt = v)
   \<and> (decoded rt txt = None \<longrightarrow> has_four_fields (parse rt txt))"
proof (intro conjI impI)
  assume "decoded rt txt = Some v"
  then show "parse rt txt = v"
    by (auto simp: decoded_def parse_def parse_body_def Let_def
        split: loads_result.splits option.splits sum.splits)
next
  assume d: "decoded rt txt = None"
  show "has_four_fields (parse rt txt)"
  proof (cases "parse_body rt txt")
    case (Inl e)
    then show ?thesis by (simp add: parse_def parse_error_fields)
  next
    case (Inr v)
    with d have "regex_step rt (processed txt) = Inr v"
      by (auto simp: decoded_def parse_body_def Let_def
          split: loads_result.splits option.splits sum.splits)
    with Inr show ?thesis by (simp add: parse_def regex_step_fields)
  qed
qed

lemmas eval_defs = processed_def strip_def is_space_def fence_def fence_json_def
  json_loads_def skip_ws_def is_ws_def is_digit_def scan_number_def dec_def
  brace_step_def py_find_def py_rfind_def slice_def cleaned_def
  regex_step_def extract_fields_def find_string_field_def find_pages_def page_numbers_def
  match_quoted_value_def match_loose_value_def match_pages_def match_number_list_def
  in_number_list_def after_prefix_def fill_missing_def dict_has_def
  key_step_def key_summary_def key_pages_def key_final_def
  reference_runtime_def

lemma loads_truncated: "json_loads truncated_reply = JSONDecodeError"
  by (simp add: truncated_reply_def asc_def eval_defs)

lemma processed_truncated: "processed truncated_reply = truncated_reply"
  by (simp add: truncated_reply_def asc_def eval_defs)

lemma brace_truncated: "brace_step reference_runtime truncated_reply = None"
  by (simp add: truncated_reply_def asc_def eval_defs)

lemma regex_truncated:
  "regex_step reference_runtime truncated_reply =
     Inr (JDict [(key_final, JStr (asc ''42'')), (key_step, JStr step_not_found),
                 (key_summary, JStr summary_not_found), (key_pages, JList [])])"
  by (simp add: truncated_reply_def asc_def eval_defs)

lemma decoded_truncated: "decoded reference_runtime truncated_reply = None"
  using loads_truncated brace_truncated
  by (simp add: decoded_def processed_truncated reference_runtime_def)

lemma parse_truncated:
  "parse reference_runtime truncated_reply =
     JDict [(key_final, JStr (asc ''42'')), (key_step, JStr step_not_found),
            (key_summary, JStr summary_not_found), (key_pages, JList [])]"
  using loads_truncated brace_truncated regex_truncated
  by (simp add: parse_def parse_body_def processed_truncated reference_runtime_def)

lemma parse_empty:
  "parse reference_runtime [] =
     JDict [(key_step, JStr (cannot_parse_prefix @ asc ''...'')),
            (key_summary, JStr format_anomaly), (key_pages, JList []),
            (key_final, JStr [])]"
  by (simp add: parse_def parse_body_def eval_defs)

theorem parse_populated_unless_decoded_witness:
  "decoded reference_runtime truncated_reply = None
   \<and> has_four_fields (parse reference_runtime truncated_reply)
   \<and> parse reference_runtime truncated_reply =
       JDict [(key_final, JStr (asc ''42'')), (key_step, JStr step_not_found),
              (key_summary, JStr summary_not_found), (key_pages, JList [])]
   \<and> parse reference_runtime [] =
       JDict [(key_step, JStr (cannot_parse_prefix @ asc ''...'')),
              (key_summary, JStr format_anomaly), (key_pages, JList []),
              (key_final, JStr [])]"
proof -
  note d = decoded_truncated
  from parse_populated_unless_decoded[of reference_runtime truncated_reply] d
  have "has_four_fields (parse reference_runtime truncated_reply)" by simp
  with d parse_truncated parse_empty show ?thesis by simp
qed

lemma loads_bare_reply:
  "json_loads bare_reply = Decoded (JDict [(key_final, JStr (asc ''42''))])"
  by (simp add: bare_reply_def asc_def eval_defs)

lemma processed_bare_reply: "processed bare_reply = bare_reply"
  by (simp add: bare_reply_def asc_def eval_defs)

lemma processed_fenced_reply: "processed fenced_reply = bare_reply"
  by (simp add: fenced_reply_def bare_reply_def asc_def eval_defs)

lemma not_four_fields: "\<not> has_four_fields (JDict [(key_final, JStr (asc ''42''))])"
  by (simp add: has_four_fields_def asc_def eval_defs)

text \<open>
  The reply \<^verbatim>\<open>{"final_answer":"42"}\<close> is valid JSON: \<open>parse\<close> returns the
  decoded object, which has one of the four fields.
\<close>

theorem parse_populated_counterexample:
  "parse reference_runtime bare_reply = JDict [(key_final, JStr (asc ''42''))]
   \<and> \<not> has_four_fields (parse reference_runtime bare_reply)"
  using loads_bare_reply not_four_fields
  by (simp add: parse_def parse_body_def processed_bare_reply reference_runtime_def)

text \<open>
  C7, as the code has it. For the reply that wraps \<^verbatim>\<open>{"final_answer":"42"}\<close>
  in a \<^verbatim>\<open>```json\<close> fence, the text between the fences is what
  \<open>json.loads\<close> gets, and \<open>parse\<close> returns the object it decodes:
  \<open>final_answer\<close> is \<open>"42"\<close>, and the keys \<open>step_by_step_analysis\<close>,
  \<open>reasoning_summary\<close> and \<open>relevant_pages\<close> are absent.
\<close>

theorem fenced_reply_returns_decoded:
  assumes "rt_loads rt bare_reply = Decoded (JDict [(key_final, JStr (asc ''42''))])"
  shows "processed fenced_reply = bare_reply
       \<and> parse rt fenced_reply = JDict [(key_final, JStr (asc ''42''))]
       \<and> py_getitem_str (parse rt fenced_reply) key_final = Some (JStr (asc ''42''))
       \<and> py_getitem_str (parse rt fenced_reply) key_step = None
       \<and> py_getitem_str (parse rt fenced_reply) key_summary = None
       \<and> py_getitem_str (parse rt fenced_reply) key_pages = None"
proof -
  have p: "parse rt fenced_reply = JDict [(key_final, JStr (asc ''42''))]"
    using assms by (simp add: parse_def parse_body_def processed_fenced_reply)
  show ?thesis
    by (simp add: p processed_fenced_reply)
       (simp add: key_step_def key_summary_def key_pages_def key_final_def asc_def)
qed

theorem fenced_reply_returns_decoded_witness:
  "rt_loads reference_runtime bare_reply = Decoded (JDict [(key_final, JStr (asc ''42''))])
   \<and> parse reference_runtime fenced_reply = JDict [(key_final, JStr (asc ''42''))]"
proof -
  have l: "rt_loads reference_runtime bare_reply
      = Decoded (JDict [(key_final, JStr (asc ''42''))])"
    using loads_bare_reply by (simp add: reference_runtime_def)
  from fenced_reply_returns_decoded[OF l] l show ?thesis by simp
qed

text \<open>The three fields are not filled with the defaults: the keys are missing.\<close>

theorem fenced_reply_counterexample:
  "py_getitem_str (parse reference_runtime fenced_reply) key_step = None
   \<and> py_getitem_str (parse reference_runtime fenced_reply) key_summary = None
   \<and> py_getitem_str (parse reference_runtime fenced_reply) key_pages = None
   \<and> \<not> has_four_fields (parse reference_runtime fenced_reply)"
proof -
  have p: "parse reference_runtime fenced_reply = JDict [(key_final, JStr (asc ''42''))]"
    using loads_bare_reply
    by (simp add: parse_def parse_body_def processed_fenced_reply reference_runtime_def)
  show ?thesis
    using not_four_fields
    by (simp add: p) (simp add: key_step_def key_summary_def key_pages_def key_final_def asc_def)
qed

section \<open>The round trip through the serialized form\<close>

declare digits.simps [simp del]

subsection \<open>Strings\<close>

lemma hex_val_hexdigit: "d < 16 \<Longrightarrow> hex_val (hexdigit d) = Some d"
  by (simp add: hex_val_def hexdigit_def)

lemma hex4_control:
  "c < 32 \<Longrightarrow> hex4 (48 # 48 # hexdigit (c div 16) # hexdigit (c mod 16) # t) = Some (c, t)"
proof -
  assume c: "c < 32"
  then have "c div 16 < 16" by simp
  then have 1: "hex_val (hexdigit (c div 16)) = Some (c div 16)" by (rule hex_val_hexdigit)
  have 2: "hex_val (hexdigit (c mod 16)) = Some (c mod 16)" by (rule hex_val_hexdigit) simp
  have 0: "hex_val 48 = Some 0" by (simp add: hex_val_def)
  show ?thesis by (simp add: 0 1 2)
qed

lemma scan_esc_char:
  "scan_string (esc_char c @ t) = map_option (\<lambda>(r, rest). (c # r, rest)) (scan_string t)"
proof -
  consider (special) "c \<in> {34, 92, 10, 13, 9, 8, 12}"
    | (control) "c \<notin> {34, 92, 10, 13, 9, 8, 12}" "c < 32"
    | (plain) "c \<notin> {34, 92, 10, 13, 9, 8, 12}" "\<not> c < 32" by blast
  then show ?thesis
  proof cases
    case special
    then show ?thesis by (auto simp: esc_char_def unescape_def)
  next
    case control
    then have e: "esc_char c = [92, 117, 48, 48, hexdigit (c div 16), hexdigit (c mod 16)]"
      by (simp add: esc_char_def)
    from control(2) show ?thesis by (simp add: e hex4_control del: hex4.simps)
  next
    case plain
    then show ?thesis by (simp add: esc_char_def)
  qed
qed

lemma scan_esc:
  "scan_string (concat (map esc_char s) @ 34 # rest) = Some (s, rest)"
  by (induction s) (simp_all add: scan_esc_char)

lemma parse_value_str: "parse_value (dumps_str s @ rest) = Some (JStr s, rest)"
  by (simp add: dumps_str_def scan_esc)

subsection \<open>Integers\<close>

lemma digits_is_digit: "x \<in> set (digits n) \<Longrightarrow> is_digit x"
proof (induction n arbitrary: x rule: digits.induct)
  case (1 n)
  show ?case
  proof (cases "n < 10")
    case True
    with "1.prems" show ?thesis by (simp add: digits.simps[of n] is_digit_def)
  next
    case False
    have "n mod 10 < 10" by simp
    then have "is_digit (48 + n mod 10)" unfolding is_digit_def by linarith
    with False "1.prems" "1.IH" show ?thesis by (auto simp: digits.simps[of n])
  qed
qed

lemma digits_not_Nil: "digits n \<noteq> []"
  by (simp add: digits.simps[of n])

lemma dec_snoc: "dec (ds @ [d]) = 10 * dec ds + (d - 48)"
  by (simp add: dec_def)

lemma dec_digits: "dec (digits n) = n"
proof (induction n rule: digits.induct)
  case (1 n)
  show ?case
  proof (cases "n < 10")
    case True
    then show ?thesis by (simp add: digits.simps[of n] dec_def)
  next
    case False
    with "1.IH" show ?thesis by (simp add: digits.simps[of n] dec_snoc)
  qed
qed

lemma hd_digits_zero: "hd (digits n) = 48 \<Longrightarrow> n = 0"
proof (induction n rule: digits.induct)
  case (1 n)
  show ?case
  proof (cases "n < 10")
    case True
    with "1.prems" show ?thesis by (simp add: digits.simps[of n])
  next
    case False
    with "1.prems" have "hd (digits (n div 10)) = 48"
      by (simp add: digits.simps[of n] hd_append digits_not_Nil)
    with "1.IH" False have "n div 10 = 0" by simp
    with False show ?thesis by simp
  qed
qed

lemma digits_zero: "digits 0 = [48]"
  by (simp add: digits.simps[of 0])

lemma sep_follows_cases:
  assumes "sep_follows rest"
  obtains "rest = []" | r rs where "rest = r # rs" "r = 44 \<or> r = 93 \<or> r = 125"
  using assms by (cases rest) (auto simp: sep_follows_def)

lemma frac_part_sep: "sep_follows rest \<Longrightarrow> frac_part rest = (None, rest)"
  by (cases rule: sep_follows_cases) (auto simp: frac_part_def)

lemma exp_part_sep: "sep_follows rest \<Longrightarrow> exp_part rest = (None, rest)"
  by (cases rule: sep_follows_cases) (auto simp: exp_part_def)

lemma int_part_digits:
  assumes "ip \<noteq> []" and dig: "\<And>x. x \<in> set ip \<Longrightarrow> is_digit x"
    and zero: "hd ip = 48 \<Longrightarrow> ip = [48]" and sep: "sep_follows rest"
  shows "int_part (ip @ rest) = Some (ip, rest)"
proof -
  from assms(1) obtain d ds where ip: "ip = d # ds" by (cases ip) auto
  from dig ip have d: "is_digit d" by simp
  have nd: "takeWhile is_digit rest = []" "dropWhile is_digit rest = rest"
    using sep by (cases rule: sep_follows_cases; simp add: is_digit_def; auto)+
  have tw: "takeWhile is_digit (ip @ rest) = ip"
    using dig nd by (simp add: takeWhile_append2)
  have dw: "dropWhile is_digit (ip @ rest) = rest"
    using dig nd by (simp add: dropWhile_append)
  show ?thesis
  proof (cases "d = 48")
    case True
    with zero ip have "ds = []" by simp
    with True ip show ?thesis by (simp add: int_part_def is_digit_def)
  next
    case False
    have "int_part (d # ds @ rest)
        = Some (takeWhile is_digit (d # ds @ rest), dropWhile is_digit (d # ds @ rest))"
      using d False by (simp add: int_part_def del: takeWhile.simps dropWhile.simps)
    with tw dw show ?thesis by (simp add: ip del: takeWhile.simps dropWhile.simps)
  qed
qed

lemma digits_leading_zero: "hd (digits n) = 48 \<Longrightarrow> digits n = [48]"
proof -
  assume "hd (digits n) = 48"
  then have "n = 0" by (rule hd_digits_zero)
  then show ?thesis by (simp add: digits_zero)
qed

lemma scan_number_int:
  assumes "ip \<noteq> []" and dig: "\<And>x. x \<in> set ip \<Longrightarrow> is_digit x"
    and zero: "hd ip = 48 \<Longrightarrow> ip = [48]" and sep: "sep_follows rest"
  shows "scan_number (ip @ rest) = Some (JInt (int (dec ip)), rest)"
    and "scan_number (45 # ip @ rest) = Some (JInt (- int (dec ip)), rest)"
proof -
  note i = int_part_digits[OF assms]
  from assms(1) obtain d ds where ip: "ip = d # ds" by (cases ip) auto
  from dig ip have "is_digit d" by simp
  then have d45: "d \<noteq> 45" by (auto simp: is_digit_def)
  have "scan_number ((d # ds) @ rest) = Some (JInt (int (dec (d # ds))), rest)"
    using i[unfolded ip] d45 by (simp add: scan_number_def frac_part_sep exp_part_sep sep)
  then show "scan_number (ip @ rest) = Some (JInt (int (dec ip)), rest)" by (simp add: ip)
  show "scan_number (45 # ip @ rest) = Some (JInt (- int (dec ip)), rest)"
    using i by (simp add: scan_number_def frac_part_sep exp_part_sep sep)
qed

lemma scan_number_dumps_int:
  assumes "sep_follows rest"
  shows "scan_number (dumps_int i @ rest) = Some (JInt i, rest)"
proof (cases "i < 0")
  case True
  have "scan_number (45 # digits (nat (- i)) @ rest)
      = Some (JInt (- int (dec (digits (nat (- i))))), rest)"
    by (rule scan_number_int(2))
       (simp_all add: digits_not_Nil digits_is_digit assms digits_leading_zero)
  with True show ?thesis by (simp add: dumps_int_def dec_digits)
next
  case False
  have "scan_number (digits (nat i) @ rest) = Some (JInt (int (dec (digits (nat i)))), rest)"
    by (rule scan_number_int(1))
       (simp_all add: digits_not_Nil digits_is_digit assms digits_leading_zero)
  with False show ?thesis by (simp add: dumps_int_def dec_digits)
qed

subsection \<open>Values\<close>

declare parse_elements.simps [simp del] parse_members.simps [simp del]

lemma value_textI:
  assumes "vt \<noteq> []" "\<not> is_ws (hd vt)"
    and "\<And>rest. sep_follows rest \<Longrightarrow> parse_value (vt @ rest) = Some (v, rest)"
  shows "value_text vt v"
  using assms by (simp add: value_text_def)

lemma value_textD:
  assumes "value_text vt v"
  shows "vt \<noteq> []" "\<not> is_ws (hd vt)"
    and "sep_follows rest \<Longrightarrow> parse_value (vt @ rest) = Some (v, rest)"
  using assms by (simp_all add: value_text_def)

lemma value_text_str: "value_text (dumps_str s) (JStr s)"
proof (rule value_textI)
  show "dumps_str s \<noteq> []" by (simp add: dumps_str_def)
  show "\<not> is_ws (hd (dumps_str s))" by (simp add: dumps_str_def is_ws_def)
  show "parse_value (dumps_str s @ rest) = Some (JStr s, rest)" for rest
    by (rule parse_value_str)
qed

lemma parse_value_number:
  "c = 45 \<or> is_digit c \<Longrightarrow> parse_value (c # s) = scan_number (c # s)"
  by (auto simp: is_digit_def asc_def)

lemma dumps_int_hd:
  "\<exists>c cs. dumps_int i = c # cs \<and> (c = 45 \<or> is_digit c)"
proof (cases "i < 0")
  case True
  then show ?thesis by (simp add: dumps_int_def)
next
  case False
  obtain c cs where d: "digits (nat i) = c # cs"
    using digits_not_Nil[of "nat i"] by (cases "digits (nat i)") auto
  then have "is_digit c" using digits_is_digit[of c "nat i"] by simp
  with d False show ?thesis by (simp add: dumps_int_def)
qed

lemma value_text_int: "value_text (dumps_int i) (JInt i)"
proof -
  obtain c cs where d: "dumps_int i = c # cs" and c: "c = 45 \<or> is_digit c"
    using dumps_int_hd by blast
  show ?thesis
  proof (rule value_textI)
    show "dumps_int i \<noteq> []" by (simp add: d)
    show "\<not> is_ws (hd (dumps_int i))" using c by (auto simp: d is_ws_def is_digit_def)
    show "parse_value (dumps_int i @ rest) = Some (JInt i, rest)" if "sep_follows rest" for rest
    proof -
      have "parse_value (dumps_int i @ rest) = scan_number (dumps_int i @ rest)"
        using parse_value_number[OF c, of "cs @ rest"] by (simp add: d)
      with scan_number_dumps_int[OF that] show ?thesis by simp
    qed
  qed
qed

lemma value_text_bool:
  "value_text (if b then asc ''true'' else asc ''false'') (JBool b)"
  by (rule value_textI) (simp_all add: asc_def is_ws_def)

lemma skip_ws_no_ws: "s = [] \<or> \<not> is_ws (hd s) \<Longrightarrow> skip_ws s = s"
  by (cases s) (auto simp: skip_ws_def)

lemma join_Cons:
  "join sep (x # xs) = (if xs = [] then x else x @ sep @ join sep xs)"
  by (cases xs) simp_all

lemma parse_elements_join:
  assumes "\<And>x. x \<in> set xs \<Longrightarrow> value_text (f x) (g x)" and "xs \<noteq> []"
  shows "parse_elements (join (asc '', '') (map f xs) @ 93 # rest) = Some (map g xs, rest)"
  using assms
proof (induction xs)
  case Nil
  then show ?case by simp
next
  case (Cons a xs)
  note vt = value_textD[OF Cons.prems(1)[of a, simplified]]
  show ?case
  proof (cases "xs = []")
    case True
    have s: "sep_follows (93 # rest)" by (simp add: sep_follows_def)
    have "parse_elements (f a @ 93 # rest) = Some ([g a], rest)"
      using vt(1)
      by (subst parse_elements.simps) (simp add: vt(3)[OF s] skip_ws_def is_ws_def)
    with True show ?thesis by simp
  next
    case False
    let ?tail = "join (asc '', '') (map f xs) @ 93 # rest"
    obtain b bs where xs: "xs = b # bs" using False by (cases xs) auto
    have ih: "parse_elements ?tail = Some (map g xs, rest)"
      using Cons.IH Cons.prems(1) False by simp
    have fb: "f b \<noteq> []" "\<not> is_ws (hd (f b))"
      using value_textD(1,2)[OF Cons.prems(1)[of b]] xs by simp_all
    have hd_tail: "?tail \<noteq> [] \<and> \<not> is_ws (hd ?tail)"
      using fb by (simp add: xs join_Cons hd_append)
    have sk: "skip_ws (32 # ?tail) = ?tail"
      using skip_ws_no_ws[of ?tail] hd_tail by (simp add: skip_ws_def is_ws_def)
    have s: "sep_follows (44 # 32 # ?tail)" by (simp add: sep_follows_def)
    have "parse_elements (f a @ 44 # 32 # ?tail) = Some (g a # map g xs, rest)"
      using vt(1)
      by (subst parse_elements.simps)
         (simp add: vt(3)[OF s] skip_ws_no_ws is_ws_def sk ih del: append.simps)
    moreover have "join (asc '', '') (map f (a # xs)) @ 93 # rest = f a @ 44 # 32 # ?tail"
      using False by (simp add: join_Cons asc_def)
    ultimately show ?thesis by simp
  qed
qed

lemma value_text_list:
  assumes "\<And>x. x \<in> set xs \<Longrightarrow> value_text (f x) (g x)"
  shows "value_text (dumps_list (map f xs)) (JList (map g xs))"
proof (rule value_textI)
  show "dumps_list (map f xs) \<noteq> []" by (simp add: dumps_list_def)
  show "\<not> is_ws (hd (dumps_list (map f xs)))" by (simp add: dumps_list_def is_ws_def)
  show "parse_value (dumps_list (map f xs) @ rest) = Some (JList (map g xs), rest)" for rest
  proof (cases "xs = []")
    case True
    then show ?thesis by (simp add: dumps_list_def skip_ws_def is_ws_def)
  next
    case False
    then obtain b bs where xs: "xs = b # bs" by (cases xs) auto
    let ?t = "join (asc '', '') (map f xs) @ 93 # rest"
    have fb: "f b \<noteq> []" "\<not> is_ws (hd (f b))"
      using value_textD(1,2)[OF assms[of b]] xs by simp_all
    then have hd_t: "?t \<noteq> []" "\<not> is_ws (hd ?t)" "hd ?t = hd (f b)"
      by (simp_all add: xs join_Cons hd_append)
    obtain d t where dt: "?t = d # t" using hd_t(1) by (cases ?t) auto
    with hd_t have nws: "\<not> is_ws d" by simp
    have d93: "d \<noteq> 93"
    proof
      assume "d = 93"
      with dt hd_t(3) have h: "hd (f b) = 93" by simp
      have "sep_follows []" by (simp add: sep_follows_def)
      from value_textD(3)[OF assms[of b] this] xs
      have "parse_value (f b) = Some (g b, [])" by simp
      moreover from fb(1) h obtain r where "f b = 93 # r" by (cases "f b") auto
      ultimately show False
        by (simp add: asc_def scan_number_def int_part_def is_digit_def)
    qed
    have pe: "parse_elements ?t = Some (map g xs, rest)"
      by (rule parse_elements_join) (simp_all add: assms False)
    have "parse_value (91 # d # t) = Some (JList (map g xs), rest)"
      using nws d93 pe[unfolded dt] by (simp add: skip_ws_def)
    then have "parse_value (91 # ?t) = Some (JList (map g xs), rest)"
      by (simp only: dt)
    then show ?thesis by (simp add: dumps_list_def)
  qed
qed

subsection \<open>Objects\<close>

lemma skip_ws_space: "vt \<noteq> [] \<Longrightarrow> \<not> is_ws (hd vt) \<Longrightarrow> skip_ws (32 # vt @ t) = vt @ t"
  by (cases vt) (auto simp: skip_ws_def is_ws_def)

lemma parse_members_last:
  assumes "value_text vt v"
  shows "parse_members (dumps_str k @ 58 # 32 # vt @ 125 # rest) = Some ([(k, v)], rest)"
proof -
  note vt = value_textD[OF assms]
  have s: "sep_follows (125 # rest)" by (simp add: sep_follows_def)
  have sk: "skip_ws (32 # vt @ 125 # rest) = vt @ 125 # rest"
    using vt(1,2) by (rule skip_ws_space)
  have "parse_members (34 # concat (map esc_char k) @ 34 # 58 # 32 # vt @ 125 # rest)
      = Some ([(k, v)], rest)"
    using vt(1)
    by (subst parse_members.simps)
       (simp add: scan_esc sk vt(3)[OF s] skip_ws_no_ws is_ws_def del: append.simps)
  then show ?thesis by (simp add: dumps_str_def)
qed

lemma parse_members_more:
  assumes "value_text vt v"
  shows "parse_members (dumps_str k @ 58 # 32 # vt @ 44 # 32 # 34 # t)
           = map_option (\<lambda>(ms, r). ((k, v) # ms, r)) (parse_members (34 # t))"
proof -
  note vt = value_textD[OF assms]
  have s: "sep_follows (44 # 32 # 34 # t)" by (simp add: sep_follows_def)
  have sk: "skip_ws (32 # vt @ 44 # 32 # 34 # t) = vt @ 44 # 32 # 34 # t"
    using vt(1,2) by (rule skip_ws_space)
  have sk2: "skip_ws (32 # 34 # t) = 34 # t" by (simp add: skip_ws_def is_ws_def)
  have "parse_members (34 # concat (map esc_char k) @ 34 # 58 # 32 # vt @ 44 # 32 # 34 # t)
      = map_option (\<lambda>(ms, r). ((k, v) # ms, r)) (parse_members (34 # t))"
    using vt(1)
    by (subst parse_members.simps)
       (simp add: scan_esc sk sk2 vt(3)[OF s] skip_ws_no_ws is_ws_def del: append.simps)
  then show ?thesis by (simp add: dumps_str_def)
qed

lemma value_text_final: "value_text (dumps_final f) (final_json f)"
proof (cases f)
  case (FStr s)
  then show ?thesis by (simp add: value_text_str)
next
  case (FInt i)
  then show ?thesis by (simp add: value_text_int)
next
  case (FBool b)
  then show ?thesis using value_text_bool[of b] by simp
next
  case (FNames ns)
  have "value_text (dumps_list (map dumps_str ns)) (JList (map JStr ns))"
    by (rule value_text_list) (rule value_text_str)
  with FNames show ?thesis by simp
qed

lemma value_text_pages:
  "value_text (dumps_list (map dumps_int ps)) (JList (map JInt ps))"
  by (rule value_text_list) (rule value_text_int)

lemma dumps_str_Cons: "dumps_str k = 34 # tl (dumps_str k)"
  by (simp add: dumps_str_def)

lemma keys_fold:
  "foldl (\<lambda>dict (k, v). dict_set dict k v) []
     [(key_step, a), (key_summary, b), (key_pages, c), (key_final, d)]
   = [(key_step, a), (key_summary, b), (key_pages, c), (key_final, d)]"
  by (simp add: key_step_def key_summary_def key_pages_def key_final_def asc_def)

lemma keys_distinct:
  "key_summary \<noteq> key_final" "key_summary \<noteq> key_pages" "key_pages \<noteq> key_final"
  "key_step \<noteq> key_final" "key_step \<noteq> key_pages" "key_step \<noteq> key_summary"
  by (simp_all add: key_step_def key_summary_def key_pages_def key_final_def asc_def)

lemma parse_members_serialize:
  "parse_members
     (dumps_str key_step @ 58 # 32 # dumps_str (sa_step x) @ 44 # 32 #
      dumps_str key_summary @ 58 # 32 # dumps_str (sa_summary x) @ 44 # 32 #
      dumps_str key_pages @ 58 # 32 # dumps_list (map dumps_int (sa_pages x)) @ 44 # 32 #
      dumps_str key_final @ 58 # 32 # dumps_final (sa_final x) @ 125 # rest)
   = Some ([(key_step, JStr (sa_step x)), (key_summary, JStr (sa_summary x)),
            (key_pages, JList (map JInt (sa_pages x))),
            (key_final, final_json (sa_final x))], rest)"
proof -
  let ?m4 = "dumps_str key_final @ 58 # 32 # dumps_final (sa_final x) @ 125 # rest"
  let ?m3 = "dumps_str key_pages @ 58 # 32 # dumps_list (map dumps_int (sa_pages x))
               @ 44 # 32 # ?m4"
  let ?m2 = "dumps_str key_summary @ 58 # 32 # dumps_str (sa_summary x) @ 44 # 32 # ?m3"
  have 4: "parse_members ?m4 = Some ([(key_final, final_json (sa_final x))], rest)"
    by (rule parse_members_last) (rule value_text_final)
  have m4: "?m4 = 34 # tl ?m4" by (simp add: dumps_str_def)
  have "parse_members ?m3
      = map_option (\<lambda>(ms, r). ((key_pages, JList (map JInt (sa_pages x))) # ms, r))
          (parse_members (34 # tl ?m4))"
    by (subst m4) (rule parse_members_more, rule value_text_pages)
  with 4 m4 have 3: "parse_members ?m3
      = Some ([(key_pages, JList (map JInt (sa_pages x))),
               (key_final, final_json (sa_final x))], rest)" by simp
  have m3: "?m3 = 34 # tl ?m3" by (simp add: dumps_str_def)
  have "parse_members ?m2
      = map_option (\<lambda>(ms, r). ((key_summary, JStr (sa_summary x)) # ms, r))
          (parse_members (34 # tl ?m3))"
    by (subst m3) (rule parse_members_more, rule value_text_str)
  with 3 m3 have 2: "parse_members ?m2
      = Some ([(key_summary, JStr (sa_summary x)),
               (key_pages, JList (map JInt (sa_pages x))),
               (key_final, final_json (sa_final x))], rest)" by simp
  have m2: "?m2 = 34 # tl ?m2" by (simp add: dumps_str_def)
  have "parse_members (dumps_str key_step @ 58 # 32 # dumps_str (sa_step x) @ 44 # 32 # ?m2)
      = map_option (\<lambda>(ms, r). ((key_step, JStr (sa_step x)) # ms, r))
          (parse_members (34 # tl ?m2))"
    by (subst m2) (rule parse_members_more, rule value_text_str)
  with 2 m2 show ?thesis by simp
qed

subsection \<open>The whole text\<close>

lemma serialize_form:
  "serialize x = 123 #
     (dumps_str key_step @ 58 # 32 # dumps_str (sa_step x) @ 44 # 32 #
      dumps_str key_summary @ 58 # 32 # dumps_str (sa_summary x) @ 44 # 32 #
      dumps_str key_pages @ 58 # 32 # dumps_list (map dumps_int (sa_pages x)) @ 44 # 32 #
      dumps_str key_final @ 58 # 32 # dumps_final (sa_final x) @ 125 # [])"
  by (simp add: serialize_def asc_def)

lemma parse_value_serialize: "parse_value (serialize x) = Some (answer_dict x, [])"
proof -
  let ?m = "dumps_str key_step @ 58 # 32 # dumps_str (sa_step x) @ 44 # 32 #
      dumps_str key_summary @ 58 # 32 # dumps_str (sa_summary x) @ 44 # 32 #
      dumps_str key_pages @ 58 # 32 # dumps_list (map dumps_int (sa_pages x)) @ 44 # 32 #
      dumps_str key_final @ 58 # 32 # dumps_final (sa_final x) @ 125 # []"
  have m: "?m = 34 # tl ?m" by (simp add: dumps_str_def)
  have pm: "parse_members (34 # tl ?m)
      = Some ([(key_step, JStr (sa_step x)), (key_summary, JStr (sa_summary x)),
            (key_pages, JList (map JInt (sa_pages x))),
            (key_final, final_json (sa_final x))], [])"
    using parse_members_serialize[of x "[]"] m by simp
  have "parse_value (123 # 34 # tl ?m) = Some (answer_dict x, [])"
    by (simp add: skip_ws_def is_ws_def pm keys_fold answer_dict_def keys_distinct)
  with m have "parse_value (123 # ?m) = Some (answer_dict x, [])" by simp
  then show ?thesis by (simp only: serialize_form)
qed

lemma json_loads_serialize: "json_loads (serialize x) = Decoded (answer_dict x)"
proof -
  have "skip_ws (serialize x) = serialize x"
    by (simp add: serialize_form skip_ws_def is_ws_def)
  then show ?thesis
    by (simp add: json_loads_def parse_value_serialize skip_ws_def)
qed

lemma esc_char_no_newline: "10 \<notin> set (esc_char c)"
  by (simp add: esc_char_def hexdigit_def)

lemma dumps_str_no_newline: "10 \<notin> set (dumps_str s)"
  by (simp add: dumps_str_def esc_char_no_newline)

lemma dumps_int_no_newline: "10 \<notin> set (dumps_int i)"
  using digits_is_digit[of 10] by (auto simp: dumps_int_def is_digit_def)

lemma join_no_newline:
  "10 \<notin> set sep \<Longrightarrow> (\<And>x. x \<in> set xs \<Longrightarrow> 10 \<notin> set x) \<Longrightarrow> 10 \<notin> set (join sep xs)"
  by (induction xs) (auto simp: join_Cons)

lemma dumps_list_no_newline:
  "(\<And>x. x \<in> set xs \<Longrightarrow> 10 \<notin> set x) \<Longrightarrow> 10 \<notin> set (dumps_list xs)"
  using join_no_newline[of "asc '', ''" xs] by (simp add: dumps_list_def asc_def)

lemma dumps_final_no_newline: "10 \<notin> set (dumps_final f)"
proof (cases f)
  case (FNames ns)
  have "10 \<notin> set (dumps_list (map dumps_str ns))"
    by (rule dumps_list_no_newline) (auto simp: dumps_str_no_newline)
  with FNames show ?thesis by simp
qed (simp_all add: dumps_str_no_newline dumps_int_no_newline asc_def)

lemma serialize_no_newline: "10 \<notin> set (serialize x)"
proof -
  have "10 \<notin> set (dumps_list (map dumps_int (sa_pages x)))"
    by (rule dumps_list_no_newline) (auto simp: dumps_int_no_newline)
  then show ?thesis
    by (simp add: serialize_form dumps_str_no_newline dumps_final_no_newline)
qed

lemma split_on_absent: "c \<notin> set s \<Longrightarrow> split_on c s = [s]"
  by (induction s) auto

lemma strip_braces: "strip (123 # m @ [125]) = 123 # m @ [125]"
  by (simp add: strip_def is_space_def)

lemma strip_serialize: "strip (serialize x) = serialize x"
proof -
  have "\<exists>m. serialize x = 123 # m @ [125]"
    by (simp add: serialize_def)
  then show ?thesis using strip_braces by auto
qed

lemma fence_loop_serialize: "fence_loop [serialize x] False [] = []"
proof -
  have h: "serialize x = 123 # tl (serialize x)" by (simp add: serialize_form)
  have 1: "\<not> starts_with (serialize x) fence_json"
    by (subst h) (simp add: fence_json_def asc_def)
  have 2: "serialize x \<noteq> fence"
    by (subst h) (simp add: fence_def asc_def)
  show ?thesis by (simp add: strip_serialize 1 2)
qed

lemma processed_serialize: "processed (serialize x) = serialize x"
  by (simp add: processed_def Let_def strip_serialize split_on_absent serialize_no_newline
      fence_loop_serialize)


lemma serialize_example:
  \<open>serialize example_answer =
     asc ''{"step_by_step_analysis": "Page 3 says: '' @ [92, 34] @ asc ''42'' @ [92, 34, 92, 110]
     @ asc ''", "reasoning_summary": "stated on page 3", "relevant_pages": [3, 12], "final_answer": -42}''\<close>
  by (simp add: serialize_def example_answer_def dumps_str_def esc_char_def dumps_list_def
      dumps_int_def digits.simps key_step_def key_summary_def key_pages_def key_final_def
      asc_def)


end
